theory Spec2Isabelle
  imports Complex_Main "HOL-Library.Sublist" "HOL-Library.AList"
begin

section \<open>Strings\<close>

text \<open>
  The theory models the converter of \<^verbatim>\<open>script.js\<close>, lines 133 to 393: the class
  \<^verbatim>\<open>FNFConverter\<close> with its size check and its methods written out. (Lines 1 to 132 hold a
  shortened variant of the class in which \<^verbatim>\<open>convertToVSlice\<close> and \<^verbatim>\<open>createVSliceZip\<close> are
  empty.)

  The three string operations of the converter are \<^verbatim>\<open>s.endsWith(p)\<close>, \<^verbatim>\<open>s.includes(p)\<close> and
  \<^verbatim>\<open>s.toLowerCase()\<close>. A string is a list of characters, compared one by one as the
  operations compare code units. \<^verbatim>\<open>toLowerCase\<close> is modelled on the letters A to Z; the only
  suffixes its result is compared with are the four ASCII extensions of
  \<^verbatim>\<open>SUPPORTED_FILES\<close>.
\<close>

fun startsWith :: "string \<Rightarrow> string \<Rightarrow> bool" where
  "startsWith s [] = True"
| "startsWith [] (c # p) = False"
| "startsWith (x # s) (c # p) = (x = c \<and> startsWith s p)"

definition endsWith :: "string \<Rightarrow> string \<Rightarrow> bool" where
  "endsWith s p = startsWith (rev s) (rev p)"

fun includes_str :: "string \<Rightarrow> string \<Rightarrow> bool" where
  "includes_str [] p = (p = [])"
| "includes_str (x # s) p = (startsWith (x # s) p \<or> includes_str s p)"

definition toLowerChar :: "char \<Rightarrow> char" where
  "toLowerChar c =
     (case map_of (zip ''ABCDEFGHIJKLMNOPQRSTUVWXYZ'' ''abcdefghijklmnopqrstuvwxyz'') c of
        None \<Rightarrow> c
      | Some l \<Rightarrow> l)"

definition toLowerCase :: "string \<Rightarrow> string" where
  "toLowerCase s = map toLowerChar s"

section \<open>Parsed JSON values and the chart transformer\<close>

text \<open>
  The values \<^verbatim>\<open>JSON.parse\<close> returns, with \<^verbatim>\<open>undefined\<close> added for the result of reading a
  property that is not there. A number is the rational it denotes. An object is the list of
  its own properties in insertion order; \<^verbatim>\<open>JSON.parse\<close> returns objects whose keys are
  pairwise different.
\<close>

datatype jsval =
    JUndefined
  | JNull
  | JBool bool
  | JNum rat
  | JStr string
  | JArr "jsval list"
  | JObj "(string \<times> jsval) list"

datatype js_exn = TypeError | SyntaxError

text \<open>\<^verbatim>\<open>ToBoolean\<close>: \<^verbatim>\<open>undefined\<close>, \<^verbatim>\<open>null\<close>, \<^verbatim>\<open>false\<close>, \<^verbatim>\<open>0\<close> and \<^verbatim>\<open>""\<close> are falsy.\<close>

fun truthy :: "jsval \<Rightarrow> bool" where
  "truthy JUndefined = False"
| "truthy JNull = False"
| "truthy (JBool b) = b"
| "truthy (JNum n) = (n \<noteq> 0)"
| "truthy (JStr s) = (s \<noteq> [])"
| "truthy (JArr xs) = True"
| "truthy (JObj kvs) = True"

text \<open>\<^verbatim>\<open>a || b\<close>\<close>

definition js_or :: "jsval \<Rightarrow> jsval \<Rightarrow> jsval" where
  "js_or a b = (if truthy a then a else b)"

text \<open>
  \<^verbatim>\<open>v.k\<close> for the property names the transformer reads (\<^verbatim>\<open>song\<close>, \<^verbatim>\<open>bpm\<close>, \<^verbatim>\<open>speed\<close>,
  \<^verbatim>\<open>notes\<close>, \<^verbatim>\<open>strumTime\<close>, \<^verbatim>\<open>noteType\<close>, \<^verbatim>\<open>direction\<close>, \<^verbatim>\<open>sustainLength\<close>): reading
  from \<^verbatim>\<open>undefined\<close> or \<^verbatim>\<open>null\<close> throws a \<^verbatim>\<open>TypeError\<close>; an object gives its own property or
  \<^verbatim>\<open>undefined\<close>; arrays, strings, numbers and booleans have none of these properties.
\<close>

fun getProp :: "jsval \<Rightarrow> string \<Rightarrow> js_exn + jsval" where
  "getProp JUndefined k = Inl TypeError"
| "getProp JNull k = Inl TypeError"
| "getProp (JObj kvs) k = (case map_of kvs k of None \<Rightarrow> Inr JUndefined | Some v \<Rightarrow> Inr v)"
| "getProp v k = Inr JUndefined"

text \<open>
  The arrow function of \<^verbatim>\<open>convertToVSlice\<close>, lines 279 to 284:
  \<^verbatim>\<open>note => ({time: note.strumTime, type: note.noteType || "default",
             direction: note.direction || "middle", length: note.sustainLength || 0})\<close>
\<close>

definition convertNote :: "jsval \<Rightarrow> js_exn + jsval" where
  "convertNote note =
     (case getProp note ''strumTime'' of Inl e \<Rightarrow> Inl e | Inr t \<Rightarrow>
     (case getProp note ''noteType'' of Inl e \<Rightarrow> Inl e | Inr ty \<Rightarrow>
     (case getProp note ''direction'' of Inl e \<Rightarrow> Inl e | Inr d \<Rightarrow>
     (case getProp note ''sustainLength'' of Inl e \<Rightarrow> Inl e | Inr l \<Rightarrow>
        Inr (JObj [(''time'', t),
                   (''type'', js_or ty (JStr ''default'')),
                   (''direction'', js_or d (JStr ''middle'')),
                   (''length'', js_or l (JNum 0))])))))"

text \<open>\<^verbatim>\<open>Array.prototype.map\<close> with a callback that may throw: the first exception ends it.\<close>

fun mapNotes :: "jsval list \<Rightarrow> js_exn + jsval list" where
  "mapNotes [] = Inr []"
| "mapNotes (n # ns) =
     (case convertNote n of Inl e \<Rightarrow> Inl e | Inr m \<Rightarrow>
     (case mapNotes ns of Inl e \<Rightarrow> Inl e | Inr ms \<Rightarrow> Inr (m # ms)))"

text \<open>
  \<^verbatim>\<open>(fnfChart.notes || []).map(...)\<close>: only an array has a callable \<^verbatim>\<open>map\<close>; on any other
  truthy value the call throws a \<^verbatim>\<open>TypeError\<close> (no JSON value is a function).
\<close>

fun callMap :: "jsval \<Rightarrow> js_exn + jsval" where
  "callMap (JArr ns) = (case mapNotes ns of Inl e \<Rightarrow> Inl e | Inr ms \<Rightarrow> Inr (JArr ms))"
| "callMap v = Inl TypeError"

definition convertToVSlice :: "jsval \<Rightarrow> js_exn + jsval" where
  "convertToVSlice fnfChart =
     (case getProp fnfChart ''song'' of Inl e \<Rightarrow> Inl e | Inr song \<Rightarrow>
     (case getProp fnfChart ''bpm'' of Inl e \<Rightarrow> Inl e | Inr bpm \<Rightarrow>
     (case getProp fnfChart ''speed'' of Inl e \<Rightarrow> Inl e | Inr speed \<Rightarrow>
     (case getProp fnfChart ''notes'' of Inl e \<Rightarrow> Inl e | Inr notes \<Rightarrow>
     (case callMap (js_or notes (JArr [])) of Inl e \<Rightarrow> Inl e | Inr ms \<Rightarrow>
        Inr (JObj [(''metadata'', JObj [(''name'', js_or song (JStr ''Unknown'')),
                                        (''bpm'', js_or bpm (JNum 100)),
                                        (''speed'', js_or speed (JNum 1))]),
                   (''notes'', ms)]))))))"

section \<open>Files, archives and the external codecs\<close>

text \<open>
  A \<^verbatim>\<open>File\<close> object: its identity and the three attributes the converter reads
  (\<open>fsize\<close> is \<^verbatim>\<open>file.size\<close>, \<open>content\<close> is what \<^verbatim>\<open>file.text()\<close> reads). Two records
  are equal exactly when they stand for the same object, so \<^verbatim>\<open>f !== zipFile\<close> is inequality
  of records. The properties \<^verbatim>\<open>converted\<close> and \<^verbatim>\<open>conversionError\<close>, which
  \<^verbatim>\<open>convertCharts\<close> adds to a \<^verbatim>\<open>File\<close> object, are kept per object in the converter's state
  below, so that every bucket holding the object sees them.
\<close>

record file_obj =
  oid :: nat
  name :: string
  fsize :: nat
  content :: string

text \<open>A \<^verbatim>\<open>Blob\<close> read from an archive member: its size and its bytes.\<close>

type_synonym blob = "nat \<times> string"

text \<open>
  One member of \<^verbatim>\<open>content.files\<close> of a loaded archive: the \<^verbatim>\<open>dir\<close> flag, and what
  \<^verbatim>\<open>async('blob')\<close> resolves to (\<open>None\<close> when it rejects).
\<close>

record zipObject =
  dir :: bool
  async_blob :: "blob option"

text \<open>What \<^verbatim>\<open>vslice.file(path, content)\<close> is given: a string, or a \<^verbatim>\<open>File\<close> object.\<close>

datatype zipdata = Text string | Blob file_obj

text \<open>
  The libraries the converter calls, as parameters of the model:
  \<^item> \<open>loadAsync\<close>: \<^verbatim>\<open>new JSZip().loadAsync(zipFile)\<close>, giving \<^verbatim>\<open>content.files\<close> as the list
    of its members in the order of \<^verbatim>\<open>Object.keys\<close>, or \<open>None\<close> when the promise rejects;
  \<^item> \<open>generateAsync\<close>: \<^verbatim>\<open>zip.generateAsync({type: "blob"})\<close> on the files written so far,
    or the message of the error it rejects with;
  \<^item> \<open>JSON_parse\<close>: \<^verbatim>\<open>JSON.parse(await file.text())\<close> on the content of a file, \<open>None\<close> when
    it throws;
  \<^item> \<open>JSON_stringify\<close>: \<^verbatim>\<open>JSON.stringify(v, null, 2)\<close>.
\<close>

record codec =
  loadAsync :: "file_obj \<Rightarrow> (string \<times> zipObject) list option"
  generateAsync :: "(string \<times> zipdata) list \<Rightarrow> string + blob"
  JSON_parse :: "string \<Rightarrow> jsval option"
  JSON_stringify :: "jsval \<Rightarrow> string"

text \<open>
  The part of JSZip that \<^verbatim>\<open>createVSliceZip\<close> uses. \<^verbatim>\<open>zip.folder(name)\<close> returns a view of
  the same archive whose root is extended by \<^verbatim>\<open>name/\<close>; \<^verbatim>\<open>view.file(path, data)\<close> stores
  \<^verbatim>\<open>data\<close> under the view's root followed by \<^verbatim>\<open>path\<close>. \<open>zfiles\<close> lists the calls of
  \<^verbatim>\<open>file\<close> in order, each under the full name it is stored at. The folder entries that JSZip
  adds for the prefixes of a full name are determined by these names and are not listed.
\<close>

record jszip =
  zroot :: string
  zfiles :: "(string \<times> zipdata) list"

definition new_JSZip :: jszip where
  "new_JSZip = \<lparr>zroot = [], zfiles = []\<rparr>"

definition folder :: "string \<Rightarrow> jszip \<Rightarrow> jszip" where
  "folder nm z = z\<lparr>zroot := zroot z @ nm @ ''/''\<rparr>"

definition zip_file :: "string \<Rightarrow> zipdata \<Rightarrow> jszip \<Rightarrow> jszip" where
  "zip_file path d z = z\<lparr>zfiles := zfiles z @ [(zroot z @ path, d)]\<rparr>"

text \<open>
  JSZip keeps one entry per name: a call of \<^verbatim>\<open>file\<close> with a name that is already there
  replaces the entry. \<open>entryAt\<close> is what the archive holds under a full name after the
  calls of \<open>zfiles\<close>: the data of the last call with that name, if there is one.
\<close>

definition entryAt :: "jszip \<Rightarrow> string \<Rightarrow> zipdata option" where
  "entryAt z path = map_of (rev (zfiles z)) path"

section \<open>The converter\<close>

record vslice_structure =
  songs :: "file_obj list"
  data :: "file_obj list"
  images :: "file_obj list"

text \<open>
  The fields of \<^verbatim>\<open>FNFConverter\<close>, the two properties that \<^verbatim>\<open>convertCharts\<close> sets on
  \<^verbatim>\<open>File\<close> objects, and what the page shows: the calls of \<^verbatim>\<open>updateUI\<close> and of
  \<^verbatim>\<open>showError\<close>, oldest first.
\<close>

record converter =
  files :: "file_obj list"
  vsliceStructure :: vslice_structure
  converted :: "file_obj \<Rightarrow> jsval option"
  conversionError :: "file_obj \<Rightarrow> bool"
  progress :: "(nat \<times> string) list"
  errorShown :: "string list"

datatype error = Error string

definition SUPPORTED_FILES :: "string list" where
  "SUPPORTED_FILES = [''.json'', ''.ogg'', ''.png'', ''.zip'']"

definition MAX_FILE_SIZE :: nat where
  "MAX_FILE_SIZE = 50 * 1024 * 1024"

definition constructor :: converter where
  "constructor =
     \<lparr>files = [], vsliceStructure = \<lparr>songs = [], data = [], images = []\<rparr>,
      converted = (\<lambda>f. None), conversionError = (\<lambda>f. False),
      progress = [], errorShown = []\<rparr>"

definition updateUI :: "nat \<Rightarrow> string \<Rightarrow> converter \<Rightarrow> converter" where
  "updateUI p message s = s\<lparr>progress := progress s @ [(p, message)]\<rparr>"

definition showError :: "string \<Rightarrow> converter \<Rightarrow> converter" where
  "showError message s = s\<lparr>errorShown := errorShown s @ [message]\<rparr>"

definition isValidType :: "file_obj \<Rightarrow> bool" where
  "isValidType f = list_ex (\<lambda>ext. endsWith (toLowerCase (name f)) ext) SUPPORTED_FILES"

definition isValidSize :: "file_obj \<Rightarrow> bool" where
  "isValidSize f = (fsize f \<le> MAX_FILE_SIZE)"

text \<open>\<^verbatim>\<open>validateFiles\<close>, lines 177 to 204 (the \<^verbatim>\<open>console.warn\<close> calls are left out).\<close>

definition validateFiles :: "file_obj list \<Rightarrow> converter \<Rightarrow> (error + unit) \<times> converter" where
  "validateFiles fs s =
     (if fs = [] then (Inl (Error ''No files selected''), s)
      else
        (let s' = s\<lparr>files := filter (\<lambda>f. isValidType f \<and> isValidSize f) fs\<rparr>
         in if files s' = [] then (Inl (Error ''No supported files found''), s')
            else (Inr (), s')))"

definition hasArchive :: "converter \<Rightarrow> bool" where
  "hasArchive s = list_ex (\<lambda>f. endsWith (name f) ''.zip'') (files s)"

text \<open>An identity that no object of the list has.\<close>

definition freshOid :: "file_obj list \<Rightarrow> nat" where
  "freshOid fs = Suc (fold max (map oid fs) 0)"

text \<open>
  \<^verbatim>\<open>Promise.all(names.map(async name => new File([await content.files[name].async('blob')],
  name)))\<close>: one new object per member, in order; it rejects when one read rejects.
\<close>

fun newFiles :: "nat \<Rightarrow> (string \<times> zipObject) list \<Rightarrow> file_obj list option" where
  "newFiles n [] = Some []"
| "newFiles n ((nm, z) # es) =
     (case async_blob z of
        None \<Rightarrow> None
      | Some (sz, bs) \<Rightarrow>
          (case newFiles (Suc n) es of
             None \<Rightarrow> None
           | Some fs \<Rightarrow> Some (\<lparr>oid = n, name = nm, fsize = sz, content = bs\<rparr> # fs)))"

text \<open>\<^verbatim>\<open>extractArchive\<close>, lines 210 to 236.\<close>

definition extractArchive :: "codec \<Rightarrow> converter \<Rightarrow> (error + unit) \<times> converter" where
  "extractArchive cdc s0 =
     (let s = updateUI 20 ''Extracting archive...'' s0 in
      case find (\<lambda>f. endsWith (name f) ''.zip'') (files s) of
        None \<Rightarrow> (Inr (), s)
      | Some zipFile \<Rightarrow>
          (case loadAsync cdc zipFile of
             None \<Rightarrow> (Inl (Error ''Failed to extract ZIP file''), s)
           | Some contentFiles \<Rightarrow>
               (case newFiles (freshOid (files s))
                       (filter (\<lambda>(nm, z). \<not> dir z) contentFiles) of
                  None \<Rightarrow> (Inl (Error ''Failed to extract ZIP file''), s)
                | Some zipFiles \<Rightarrow>
                    (Inr (), s\<lparr>files := filter (\<lambda>f. f \<noteq> zipFile) (files s) @ zipFiles\<rparr>))))"

text \<open>\<^verbatim>\<open>organizeFiles\<close>, lines 238 to 252.\<close>

definition organizeFiles :: "converter \<Rightarrow> converter" where
  "organizeFiles s0 =
     (let s = updateUI 40 ''Organizing files...'' s0 in
      s\<lparr>vsliceStructure :=
          \<lparr>songs = filter (\<lambda>f. endsWith (name f) ''.ogg'' \<or> includes_str (name f) ''/songs/'')
                     (files s),
           data = filter (\<lambda>f. endsWith (name f) ''.json'' \<or> includes_str (name f) ''/data/'')
                     (files s),
           images = filter (\<lambda>f. endsWith (name f) ''.png'' \<or> includes_str (name f) ''/images/'')
                     (files s)\<rparr>\<rparr>)"

text \<open>
  The body of the loop of \<^verbatim>\<open>convertCharts\<close>, lines 258 to 267. \<open>tryConvert\<close> is the
  \<^verbatim>\<open>try\<close> block up to the assignment: the chart the file is converted to, or \<open>None\<close> when
  \<^verbatim>\<open>JSON.parse\<close> or \<^verbatim>\<open>convertToVSlice\<close> throws and the \<^verbatim>\<open>catch\<close> block runs.
\<close>

definition tryConvert :: "codec \<Rightarrow> file_obj \<Rightarrow> jsval option" where
  "tryConvert cdc f =
     (case JSON_parse cdc (content f) of
        None \<Rightarrow> None
      | Some chart \<Rightarrow> (case convertToVSlice chart of Inl e \<Rightarrow> None | Inr v \<Rightarrow> Some v))"

definition convertChart :: "codec \<Rightarrow> file_obj \<Rightarrow> converter \<Rightarrow> converter" where
  "convertChart cdc f s =
     (if endsWith (name f) ''.json'' then
        (case tryConvert cdc f of
           None \<Rightarrow> s\<lparr>conversionError := (conversionError s)(f := True)\<rparr>
         | Some v \<Rightarrow> s\<lparr>converted := (converted s)(f \<mapsto> v)\<rparr>)
      else s)"

text \<open>\<^verbatim>\<open>convertCharts\<close>, lines 254 to 269.\<close>

definition convertCharts :: "codec \<Rightarrow> converter \<Rightarrow> converter" where
  "convertCharts cdc s0 =
     (let s = updateUI 60 ''Converting charts...'' s0 in
      fold (convertChart cdc) (data (vsliceStructure s)) s)"

text \<open>
  The body of \<^verbatim>\<open>addFiles\<close>, lines 297 to 301: what is written for one file,
  \<^verbatim>\<open>file.converted ? JSON.stringify(file.converted, null, 2) : file\<close>, and the write.
\<close>

definition fileContent :: "codec \<Rightarrow> converter \<Rightarrow> file_obj \<Rightarrow> zipdata" where
  "fileContent cdc s f =
     (case converted s f of
        None \<Rightarrow> Blob f
      | Some v \<Rightarrow> if truthy v then Text (JSON_stringify cdc v) else Blob f)"

definition addFile :: "codec \<Rightarrow> converter \<Rightarrow> string \<Rightarrow> file_obj \<Rightarrow> jszip \<Rightarrow> jszip" where
  "addFile cdc s folderName f z =
     (if \<not> conversionError s f
      then zip_file (folderName @ ''/'' @ name f) (fileContent cdc s f) z
      else z)"

definition addFiles :: "codec \<Rightarrow> converter \<Rightarrow> file_obj list \<Rightarrow> string \<Rightarrow> jszip \<Rightarrow> jszip" where
  "addFiles cdc s fs folderName z = fold (addFile cdc s folderName) fs z"

text \<open>
  \<^verbatim>\<open>createVSliceZip\<close>, lines 288 to 312. \<open>vsliceZip\<close> is the archive object when
  \<^verbatim>\<open>generateAsync\<close> is called (lines 291 to 307).
\<close>

definition vsliceZip :: "codec \<Rightarrow> converter \<Rightarrow> jszip" where
  "vsliceZip cdc s =
     (let vslice = folder ''vslice_mod'' new_JSZip;
          z1 = addFiles cdc s (songs (vsliceStructure s)) ''songs'' vslice;
          z2 = addFiles cdc s (data (vsliceStructure s)) ''data'' z1
      in addFiles cdc s (images (vsliceStructure s)) ''images'' z2)"

definition createVSliceZip :: "codec \<Rightarrow> converter \<Rightarrow> (error + file_obj) \<times> converter" where
  "createVSliceZip cdc s0 =
     (let s = updateUI 80 ''Creating package...'' s0;
          zip = vsliceZip cdc s;
          s' = updateUI 90 ''Finalizing...'' s
      in case generateAsync cdc (zfiles zip) of
           Inl message \<Rightarrow> (Inl (Error message), s')
         | Inr (sz, bs) \<Rightarrow>
             (Inr \<lparr>oid = freshOid (files s'), name = ''vslice_mod.zip'',
                   fsize = sz, content = bs\<rparr>, s'))"

text \<open>\<^verbatim>\<open>processFiles\<close>, lines 149 to 174.\<close>

definition processFiles :: "codec \<Rightarrow> file_obj list \<Rightarrow> converter \<Rightarrow> (error + file_obj) \<times> converter" where
  "processFiles cdc fs s0 =
     (let s1 = updateUI 10 ''Checking files...'' s0 in
      case validateFiles fs s1 of
        (Inl (Error m), s2) \<Rightarrow> (Inl (Error m), showError m s2)
      | (Inr u, s2) \<Rightarrow>
          (case (if hasArchive s2 then extractArchive cdc s2 else (Inr (), s2)) of
             (Inl (Error m), s3) \<Rightarrow> (Inl (Error m), showError m s3)
           | (Inr u, s3) \<Rightarrow>
               (case createVSliceZip cdc (convertCharts cdc (organizeFiles s3)) of
                  (Inl (Error m), s6) \<Rightarrow> (Inl (Error m), showError m s6)
                | (Inr out, s6) \<Rightarrow> (Inr out, s6))))"

section \<open>Example inputs\<close>

text \<open>The chart of the specification's example and the chart it is converted to.\<close>

definition example_chart :: jsval where
  "example_chart =
     JObj [(''song'', JStr ''Test''), (''bpm'', JNum 150),
           (''notes'', JArr [JObj [(''strumTime'', JNum 1000), (''direction'', JStr ''left'')]])]"

definition example_target :: jsval where
  "example_target =
     JObj [(''metadata'', JObj [(''name'', JStr ''Test''), (''bpm'', JNum 150), (''speed'', JNum 1)]),
           (''notes'', JArr [JObj [(''time'', JNum 1000), (''type'', JStr ''default''),
                                   (''direction'', JStr ''left''), (''length'', JNum 0)]])]"

text \<open>
  A batch of four files: a chart that does not parse, an archive, a text file and a song.
  The archive holds a folder and four files, one of them a 60 MB executable below a
  \<^verbatim>\<open>data\<close> folder.
\<close>

definition example_files :: "file_obj list" where
  "example_files =
     [\<lparr>oid = 0, name = ''bad.json'', fsize = 1, content = ''{''\<rparr>,
      \<lparr>oid = 1, name = ''mod.zip'', fsize = 2, content = ''PK''\<rparr>,
      \<lparr>oid = 2, name = ''readme.txt'', fsize = 2, content = ''hi''\<rparr>,
      \<lparr>oid = 3, name = ''z.ogg'', fsize = 3, content = ''Ogg''\<rparr>]"

definition example_archive :: "(string \<times> zipObject) list" where
  "example_archive =
     [(''songs/'', \<lparr>dir = True, async_blob = None\<rparr>),
      (''songs/a.ogg'', \<lparr>dir = False, async_blob = Some (3, ''Ogg'')\<rparr>),
      (''data/b.json'', \<lparr>dir = False, async_blob = Some (4, ''good'')\<rparr>),
      (''images/c.png'', \<lparr>dir = False, async_blob = Some (3, ''PNG'')\<rparr>),
      (''extra/data/evil.exe'', \<lparr>dir = False, async_blob = Some (60000000, ''MZ'')\<rparr>)]"

definition example_loadAsync :: "file_obj \<Rightarrow> (string \<times> zipObject) list option" where
  "example_loadAsync f = (if content f = ''PK'' then Some example_archive else None)"

definition example_generateAsync :: "(string \<times> zipdata) list \<Rightarrow> string + blob" where
  "example_generateAsync t = Inr (length t, ''zipped'')"

definition example_parse :: "string \<Rightarrow> jsval option" where
  "example_parse c = (if c = ''good'' then Some example_chart else None)"

definition example_stringify :: "jsval \<Rightarrow> string" where
  "example_stringify v = (if v = example_target then ''target'' else ''other'')"

definition example_codec :: codec where
  "example_codec =
     \<lparr>loadAsync = example_loadAsync, generateAsync = example_generateAsync,
      JSON_parse = example_parse, JSON_stringify = example_stringify\<rparr>"

text \<open>A batch with two archives, and one with an archive in front of a song.\<close>

definition two_archives :: "file_obj list" where
  "two_archives =
     [\<lparr>oid = 0, name = ''mod.zip'', fsize = 2, content = ''PK''\<rparr>,
      \<lparr>oid = 1, name = ''second.zip'', fsize = 2, content = ''PK''\<rparr>]"

definition archive_first :: "file_obj list" where
  "archive_first =
     [\<lparr>oid = 0, name = ''mod.zip'', fsize = 2, content = ''PK''\<rparr>,
      \<lparr>oid = 1, name = ''z.ogg'', fsize = 3, content = ''Ogg''\<rparr>]"

text \<open>An archive that holds another archive, and a codec that decodes every file to it.\<close>

definition nested_archive :: "(string \<times> zipObject) list" where
  "nested_archive =
     [(''inner/'', \<lparr>dir = True, async_blob = None\<rparr>),
      (''inner/pack.zip'', \<lparr>dir = False, async_blob = Some (2, ''PK'')\<rparr>)]"

definition nested_loadAsync :: "file_obj \<Rightarrow> (string \<times> zipObject) list option" where
  "nested_loadAsync f = Some nested_archive"

definition nested_codec :: codec where
  "nested_codec =
     \<lparr>loadAsync = nested_loadAsync, generateAsync = example_generateAsync,
      JSON_parse = example_parse, JSON_stringify = example_stringify\<rparr>"

text \<open>
  A codec that decodes a file starting with \<^verbatim>\<open>PK\<close> to the example archive and any other file
  to the archive that holds an archive.
\<close>

definition mixed_loadAsync :: "file_obj \<Rightarrow> (string \<times> zipObject) list option" where
  "mixed_loadAsync f = (if content f = ''PK'' then Some example_archive else Some nested_archive)"

definition mixed_codec :: codec where
  "mixed_codec =
     \<lparr>loadAsync = mixed_loadAsync, generateAsync = example_generateAsync,
      JSON_parse = example_parse, JSON_stringify = example_stringify\<rparr>"

text \<open>A batch of two songs that have the same name and different contents.\<close>

definition same_name_files :: "file_obj list" where
  "same_name_files =
     [\<lparr>oid = 0, name = ''a.ogg'', fsize = 3, content = ''one''\<rparr>,
      \<lparr>oid = 1, name = ''a.ogg'', fsize = 3, content = ''two''\<rparr>]"

section \<open>The string tests\<close>

text \<open>The three tests are the prefix, suffix and contiguous-sublist relations on lists.\<close>

lemma startsWith_prefix: "startsWith s p \<longleftrightarrow> prefix p s"
  by (induction s p rule: startsWith.induct) auto

lemma endsWith_suffix: "endsWith s p \<longleftrightarrow> suffix p s"
  by (simp add: endsWith_def startsWith_prefix suffix_to_prefix)

lemma includes_str_sublist: "includes_str s p \<longleftrightarrow> sublist p s"
proof (induction s)
  case Nil
  show ?case by auto
next
  case (Cons x s)
  show ?case
    unfolding includes_str.simps Cons.IH startsWith_prefix
    by (simp add: sublist_Cons_right)
qed

section \<open>The chart transformer\<close>

lemma convertNote_JObj:
  "convertNote (JObj nkvs) =
     Inr (JObj [(''time'', case map_of nkvs ''strumTime'' of None \<Rightarrow> JUndefined | Some t \<Rightarrow> t),
                (''type'', js_or (case map_of nkvs ''noteType'' of None \<Rightarrow> JUndefined | Some t \<Rightarrow> t) (JStr ''default'')),
                (''direction'', js_or (case map_of nkvs ''direction'' of None \<Rightarrow> JUndefined | Some t \<Rightarrow> t) (JStr ''middle'')),
                (''length'', js_or (case map_of nkvs ''sustainLength'' of None \<Rightarrow> JUndefined | Some t \<Rightarrow> t) (JNum 0))])"
  by (simp add: convertNote_def split: option.splits)

lemma mapNotes_Inr_iff:
  "mapNotes ns = Inr ms \<longleftrightarrow> list_all2 (\<lambda>n m. convertNote n = Inr m) ns ms"
proof (induction ns arbitrary: ms)
  case Nil
  show ?case by auto
next
  case (Cons n ns)
  show ?case
    by (cases ms; cases "convertNote n"; cases "mapNotes ns") (auto simp: Cons.IH[symmetric])
qed

lemma mapNotes_records:
  assumes "\<forall>n \<in> set ns. \<exists>nkvs. n = JObj nkvs"
  shows "\<exists>ms. mapNotes ns = Inr ms"
  using assms
proof (induction ns)
  case Nil
  show ?case by simp
next
  case (Cons n ns)
  then obtain ms where "mapNotes ns = Inr ms" by auto
  moreover from Cons.prems obtain nkvs where "n = JObj nkvs" by auto
  ultimately show ?case by (simp add: convertNote_JObj)
qed





lemma getProp_delete_other:
  "k \<noteq> k' \<Longrightarrow> getProp (JObj (AList.delete k kvs)) k' = getProp (JObj kvs) k'"
  by (simp add: delete_conv')

lemma getProp_delete_same: "getProp (JObj (AList.delete k kvs)) k = Inr JUndefined"
  by (simp add: delete_conv')



lemma getProp_JObj:
  "getProp (JObj kvs) k = Inr (case map_of kvs k of None \<Rightarrow> JUndefined | Some v \<Rightarrow> v)"
  by (simp split: option.splits)




lemma callMap_notes:
  assumes "(map_of kvs ''notes'' = None \<and> ns = []) \<or> map_of kvs ''notes'' = Some (JArr ns)"
  shows "callMap (js_or (case map_of kvs ''notes'' of None \<Rightarrow> JUndefined | Some v \<Rightarrow> v) (JArr []))
         = callMap (JArr ns)"
  using assms by (auto simp: js_or_def)

lemma convertToVSlice_JObj:
  assumes "(map_of kvs ''notes'' = None \<and> ns = []) \<or> map_of kvs ''notes'' = Some (JArr ns)"
    and "mapNotes ns = Inr ms"
  shows "convertToVSlice (JObj kvs) =
     Inr (JObj [(''metadata'',
                 JObj [(''name'', js_or (case map_of kvs ''song'' of None \<Rightarrow> JUndefined | Some v \<Rightarrow> v) (JStr ''Unknown'')),
                       (''bpm'', js_or (case map_of kvs ''bpm'' of None \<Rightarrow> JUndefined | Some v \<Rightarrow> v) (JNum 100)),
                       (''speed'', js_or (case map_of kvs ''speed'' of None \<Rightarrow> JUndefined | Some v \<Rightarrow> v) (JNum 1))]),
                (''notes'', JArr ms)])"
  unfolding convertToVSlice_def getProp_JObj
  by (simp add: callMap_notes [OF assms(1)] assms(2))

lemma js_or_field_absent:
  "map_of kvs k = None \<Longrightarrow> js_or (case map_of kvs k of None \<Rightarrow> JUndefined | Some v \<Rightarrow> v) d = d"
  by (simp add: js_or_def)

lemma js_or_field_truthy:
  "map_of kvs k = Some v \<Longrightarrow> truthy v \<Longrightarrow>
   js_or (case map_of kvs k of None \<Rightarrow> JUndefined | Some v \<Rightarrow> v) d = v"
  by (simp add: js_or_def)

text \<open>
  C1: a chart source, that is an object whose \<^verbatim>\<open>notes\<close> are absent or a sequence of note
  records, is converted without an exception to metadata \<^verbatim>\<open>{name, bpm, speed}\<close> and a list
  of notes \<^verbatim>\<open>{time, type, direction, length}\<close> as long as the source's and in its order. A
  field that is absent gets its default (\<^verbatim>\<open>"Unknown"\<close>, \<^verbatim>\<open>100\<close>, \<^verbatim>\<open>1\<close>, \<^verbatim>\<open>"default"\<close>,
  \<^verbatim>\<open>"middle"\<close>, \<^verbatim>\<open>0\<close>), a field with a truthy value keeps it, and \<^verbatim>\<open>time\<close> is \<^verbatim>\<open>strumTime\<close>
  or, without one, \<^verbatim>\<open>undefined\<close>. The example chart is converted to the example target.
\<close>

theorem convertToVSlice_defaults:
  assumes nts: "(map_of kvs ''notes'' = None \<and> ns = []) \<or> map_of kvs ''notes'' = Some (JArr ns)"
    and recs: "\<forall>n \<in> set ns. \<exists>nkvs. n = JObj nkvs"
  shows "\<exists>nm bp sp ms.
      convertToVSlice (JObj kvs) =
        Inr (JObj [(''metadata'', JObj [(''name'', nm), (''bpm'', bp), (''speed'', sp)]),
                   (''notes'', JArr ms)])
    \<and> (map_of kvs ''song'' = None \<longrightarrow> nm = JStr ''Unknown'')
    \<and> (\<forall>v. map_of kvs ''song'' = Some v \<and> truthy v \<longrightarrow> nm = v)
    \<and> (map_of kvs ''bpm'' = None \<longrightarrow> bp = JNum 100)
    \<and> (\<forall>v. map_of kvs ''bpm'' = Some v \<and> truthy v \<longrightarrow> bp = v)
    \<and> (map_of kvs ''speed'' = None \<longrightarrow> sp = JNum 1)
    \<and> (\<forall>v. map_of kvs ''speed'' = Some v \<and> truthy v \<longrightarrow> sp = v)
    \<and> length ms = length ns
    \<and> (\<forall>i < length ns. \<forall>nkvs. ns ! i = JObj nkvs \<longrightarrow>
          (\<exists>ty d l.
              ms ! i = JObj [(''time'', case map_of nkvs ''strumTime'' of
                                          None \<Rightarrow> JUndefined | Some t \<Rightarrow> t),
                             (''type'', ty), (''direction'', d), (''length'', l)]
            \<and> (map_of nkvs ''noteType'' = None \<longrightarrow> ty = JStr ''default'')
            \<and> (\<forall>v. map_of nkvs ''noteType'' = Some v \<and> truthy v \<longrightarrow> ty = v)
            \<and> (map_of nkvs ''direction'' = None \<longrightarrow> d = JStr ''middle'')
            \<and> (\<forall>v. map_of nkvs ''direction'' = Some v \<and> truthy v \<longrightarrow> d = v)
            \<and> (map_of nkvs ''sustainLength'' = None \<longrightarrow> l = JNum 0)
            \<and> (\<forall>v. map_of nkvs ''sustainLength'' = Some v \<and> truthy v \<longrightarrow> l = v)))
    \<and> convertToVSlice example_chart = Inr example_target"
proof -
  from recs obtain ms where ms: "mapNotes ns = Inr ms"
    using mapNotes_records by blast
  then have all2: "list_all2 (\<lambda>n m. convertNote n = Inr m) ns ms"
    by (simp add: mapNotes_Inr_iff)
  then have len: "length ms = length ns"
    by (simp add: list_all2_lengthD)
  have nth: "\<exists>ty d l.
              ms ! i = JObj [(''time'', case map_of nkvs ''strumTime'' of
                                          None \<Rightarrow> JUndefined | Some t \<Rightarrow> t),
                             (''type'', ty), (''direction'', d), (''length'', l)]
            \<and> (map_of nkvs ''noteType'' = None \<longrightarrow> ty = JStr ''default'')
            \<and> (\<forall>v. map_of nkvs ''noteType'' = Some v \<and> truthy v \<longrightarrow> ty = v)
            \<and> (map_of nkvs ''direction'' = None \<longrightarrow> d = JStr ''middle'')
            \<and> (\<forall>v. map_of nkvs ''direction'' = Some v \<and> truthy v \<longrightarrow> d = v)
            \<and> (map_of nkvs ''sustainLength'' = None \<longrightarrow> l = JNum 0)
            \<and> (\<forall>v. map_of nkvs ''sustainLength'' = Some v \<and> truthy v \<longrightarrow> l = v)"
    if i: "i < length ns" and n: "ns ! i = JObj nkvs" for i nkvs
  proof -
    from all2 i have "convertNote (ns ! i) = Inr (ms ! i)"
      by (rule list_all2_nthD)
    with n have "ms ! i =
        JObj [(''time'', case map_of nkvs ''strumTime'' of None \<Rightarrow> JUndefined | Some t \<Rightarrow> t),
              (''type'', js_or (case map_of nkvs ''noteType'' of None \<Rightarrow> JUndefined | Some t \<Rightarrow> t) (JStr ''default'')),
              (''direction'', js_or (case map_of nkvs ''direction'' of None \<Rightarrow> JUndefined | Some t \<Rightarrow> t) (JStr ''middle'')),
              (''length'', js_or (case map_of nkvs ''sustainLength'' of None \<Rightarrow> JUndefined | Some t \<Rightarrow> t) (JNum 0))]"
      by (simp add: convertNote_JObj)
    then show ?thesis
      by (simp add: js_or_def)
  qed
  have ex: "convertToVSlice example_chart = Inr example_target"
    by (simp add: example_chart_def example_target_def convertToVSlice_def convertNote_def
        js_or_def)
  show ?thesis
    unfolding convertToVSlice_JObj [OF nts ms]
    using len nth ex
    by (simp add: js_or_def)
qed

theorem convertToVSlice_defaults_witness:
  "map_of [(''song'', JStr ''Test''), (''bpm'', JNum 150),
           (''notes'', JArr [JObj [(''strumTime'', JNum 1000), (''direction'', JStr ''left'')]])]
      ''notes'' = Some (JArr [JObj [(''strumTime'', JNum 1000), (''direction'', JStr ''left'')]])
   \<and> (\<exists>sp ms.
        convertToVSlice
          (JObj [(''song'', JStr ''Test''), (''bpm'', JNum 150),
                 (''notes'', JArr [JObj [(''strumTime'', JNum 1000),
                                         (''direction'', JStr ''left'')]])]) =
          Inr (JObj [(''metadata'', JObj [(''name'', JStr ''Test''), (''bpm'', JNum 150),
                                          (''speed'', sp)]),
                     (''notes'', JArr ms)])
        \<and> sp = JNum 1 \<and> length ms = 1)"
  using convertToVSlice_defaults
    [of "[(''song'', JStr ''Test''), (''bpm'', JNum 150),
          (''notes'', JArr [JObj [(''strumTime'', JNum 1000), (''direction'', JStr ''left'')]])]"
        "[JObj [(''strumTime'', JNum 1000), (''direction'', JStr ''left'')]]"]
  by auto





section \<open>Evaluating the model on the examples\<close>

lemmas run_defs =
  processFiles_def validateFiles_def isValidType_def isValidSize_def SUPPORTED_FILES_def
  MAX_FILE_SIZE_def endsWith_def toLowerCase_def toLowerChar_def hasArchive_def
  extractArchive_def freshOid_def organizeFiles_def convertCharts_def convertChart_def
  tryConvert_def createVSliceZip_def vsliceZip_def addFiles_def addFile_def fileContent_def
  zip_file_def folder_def new_JSZip_def updateUI_def showError_def constructor_def Let_def

lemmas example_defs =
  example_codec_def example_loadAsync_def example_generateAsync_def example_parse_def
  example_stringify_def example_archive_def example_files_def example_chart_def
  example_target_def convertToVSlice_def convertNote_def js_or_def

section \<open>The classifier\<close>

text \<open>
  C7: each bucket holds, in the order of the working set, every file that matches the
  bucket's rule (songs: name ends in \<^verbatim>\<open>.ogg\<close> or contains \<^verbatim>\<open>/songs/\<close>; data: \<^verbatim>\<open>.json\<close> or
  \<^verbatim>\<open>/data/\<close>; images: \<^verbatim>\<open>.png\<close> or \<^verbatim>\<open>/images/\<close>). The three rules are evaluated on their
  own, with no priority among them: a file named \<^verbatim>\<open>extra/data/weird.png\<close> is in the images
  and in the data bucket.
\<close>

theorem organizeFiles_rule_union:
  "songs (vsliceStructure (organizeFiles s)) =
     filter (\<lambda>f. suffix ''.ogg'' (name f) \<or> sublist ''/songs/'' (name f)) (files s)
   \<and> data (vsliceStructure (organizeFiles s)) =
     filter (\<lambda>f. suffix ''.json'' (name f) \<or> sublist ''/data/'' (name f)) (files s)
   \<and> images (vsliceStructure (organizeFiles s)) =
     filter (\<lambda>f. suffix ''.png'' (name f) \<or> sublist ''/images/'' (name f)) (files s)
   \<and> files (organizeFiles s) = files s
   \<and> (\<forall>f \<in> set (files s). name f = ''extra/data/weird.png'' \<longrightarrow>
         f \<in> set (images (vsliceStructure (organizeFiles s)))
       \<and> f \<in> set (data (vsliceStructure (organizeFiles s)))
       \<and> f \<notin> set (songs (vsliceStructure (organizeFiles s))))"
proof -
  have weird: "endsWith ''extra/data/weird.png'' ''.png''"
    "includes_str ''extra/data/weird.png'' ''/data/''"
    "\<not> endsWith ''extra/data/weird.png'' ''.ogg''"
    "\<not> includes_str ''extra/data/weird.png'' ''/songs/''"
    by (simp_all add: endsWith_def)
  show ?thesis
    using weird
    by (simp add: organizeFiles_def updateUI_def endsWith_suffix includes_str_sublist)
qed

theorem organizeFiles_rule_union_witness:
  "\<lparr>oid = 0, name = ''extra/data/weird.png'', fsize = 1, content = ''x''\<rparr>
     \<in> set (files (constructor\<lparr>files :=
          [\<lparr>oid = 0, name = ''extra/data/weird.png'', fsize = 1, content = ''x''\<rparr>]\<rparr>))
   \<and> \<lparr>oid = 0, name = ''extra/data/weird.png'', fsize = 1, content = ''x''\<rparr>
     \<in> set (images (vsliceStructure (organizeFiles (constructor\<lparr>files :=
          [\<lparr>oid = 0, name = ''extra/data/weird.png'', fsize = 1, content = ''x''\<rparr>]\<rparr>))))
   \<and> \<lparr>oid = 0, name = ''extra/data/weird.png'', fsize = 1, content = ''x''\<rparr>
     \<in> set (data (vsliceStructure (organizeFiles (constructor\<lparr>files :=
          [\<lparr>oid = 0, name = ''extra/data/weird.png'', fsize = 1, content = ''x''\<rparr>]\<rparr>))))
   \<and> \<lparr>oid = 0, name = ''extra/data/weird.png'', fsize = 1, content = ''x''\<rparr>
     \<notin> set (songs (vsliceStructure (organizeFiles (constructor\<lparr>files :=
          [\<lparr>oid = 0, name = ''extra/data/weird.png'', fsize = 1, content = ''x''\<rparr>]\<rparr>))))"
proof -
  let ?w = "\<lparr>oid = 0, name = ''extra/data/weird.png'', fsize = 1, content = ''x''\<rparr>"
  let ?s = "constructor\<lparr>files := [?w]\<rparr>"
  have mem: "?w \<in> set (files ?s)"
    by simp
  have nm: "name ?w = ''extra/data/weird.png''"
    by simp
  from organizeFiles_rule_union [of ?s]
  have "\<forall>f \<in> set (files ?s). name f = ''extra/data/weird.png'' \<longrightarrow>
         f \<in> set (images (vsliceStructure (organizeFiles ?s)))
       \<and> f \<in> set (data (vsliceStructure (organizeFiles ?s)))
       \<and> f \<notin> set (songs (vsliceStructure (organizeFiles ?s)))"
    by (elim conjE)
  from this [rule_format, OF mem nm] mem show ?thesis
    by (intro conjI) (elim conjE, assumption)+
qed

section \<open>Intake\<close>

lemma validateFiles_empty:
  "validateFiles [] s = (Inl (Error ''No files selected''), s)"
  by (simp add: validateFiles_def)

lemma validateFiles_all_rejected:
  assumes "fs \<noteq> []" "\<forall>f \<in> set fs. \<not> (isValidType f \<and> isValidSize f)"
  shows "validateFiles fs s = (Inl (Error ''No supported files found''), s\<lparr>files := []\<rparr>)"
proof -
  from assms(2) have "filter (\<lambda>f. isValidType f \<and> isValidSize f) fs = []"
    by (simp add: filter_empty_conv)
  with assms(1) show ?thesis
    by (simp add: validateFiles_def)
qed

text \<open>
  C5: when the batch is empty, or no candidate passes the test on the extension and the
  size, the run fails with the error \<^verbatim>\<open>No files selected\<close> or \<^verbatim>\<open>No supported files found\<close>.
  It returns no archive, and no later stage has run: the only progress shown is the first
  checkpoint, and the buckets and the conversion outcomes are as they were.
\<close>

theorem no_usable_files:
  assumes "fs = [] \<or> (\<forall>f \<in> set fs. \<not> (isValidType f \<and> isValidSize f))"
  shows "\<exists>m. (m = ''No files selected'' \<or> m = ''No supported files found'')
     \<and> fst (processFiles cdc fs s0) = Inl (Error m)
     \<and> progress (snd (processFiles cdc fs s0)) = progress s0 @ [(10, ''Checking files...'')]
     \<and> errorShown (snd (processFiles cdc fs s0)) = errorShown s0 @ [m]
     \<and> vsliceStructure (snd (processFiles cdc fs s0)) = vsliceStructure s0
     \<and> converted (snd (processFiles cdc fs s0)) = converted s0
     \<and> conversionError (snd (processFiles cdc fs s0)) = conversionError s0"
proof (cases "fs = []")
  case True
  then show ?thesis
    by (simp add: processFiles_def validateFiles_empty updateUI_def showError_def)
next
  case False
  with assms have "\<forall>f \<in> set fs. \<not> (isValidType f \<and> isValidSize f)"
    by simp
  with False show ?thesis
    by (simp add: processFiles_def validateFiles_all_rejected updateUI_def showError_def)
qed


theorem no_usable_files_witness:
  "\<not> isValidType \<lparr>oid = 0, name = ''readme.txt'', fsize = 2, content = ''hi''\<rparr>
   \<and> \<not> isValidSize \<lparr>oid = 1, name = ''huge.png'', fsize = 60000000, content = ''PNG''\<rparr>
   \<and> (\<exists>m. fst (processFiles example_codec
                [\<lparr>oid = 0, name = ''readme.txt'', fsize = 2, content = ''hi''\<rparr>,
                 \<lparr>oid = 1, name = ''huge.png'', fsize = 60000000, content = ''PNG''\<rparr>]
                constructor) = Inl (Error m))
   \<and> progress (snd (processFiles example_codec
                [\<lparr>oid = 0, name = ''readme.txt'', fsize = 2, content = ''hi''\<rparr>,
                 \<lparr>oid = 1, name = ''huge.png'', fsize = 60000000, content = ''PNG''\<rparr>]
                constructor)) = [(10, ''Checking files...'')]"
proof -
  let ?r = "\<lparr>oid = 0, name = ''readme.txt'', fsize = 2, content = ''hi''\<rparr>"
  let ?h = "\<lparr>oid = 1, name = ''huge.png'', fsize = 60000000, content = ''PNG''\<rparr>"
  have r: "\<not> isValidType ?r"
    by (simp add: isValidType_def SUPPORTED_FILES_def endsWith_def toLowerCase_def
        toLowerChar_def)
  have h: "\<not> isValidSize ?h"
    by (simp add: isValidSize_def MAX_FILE_SIZE_def)
  from r h have "[?r, ?h] = [] \<or> (\<forall>f \<in> set [?r, ?h]. \<not> (isValidType f \<and> isValidSize f))"
    by simp
  from no_usable_files [OF this, of example_codec constructor] r h show ?thesis
    by (auto simp: constructor_def)
qed

section \<open>Archive expansion\<close>

lemma fold_max_ge:
  fixes a :: nat
  shows "a \<le> fold max xs a \<and> (\<forall>x \<in> set xs. x \<le> fold max xs a)"
proof (induction xs arbitrary: a)
  case Nil
  show ?case by simp
next
  case (Cons y ys)
  from Cons.IH [of "max y a"] show ?case
    by auto
qed

lemma freshOid_gt: "f \<in> set fs \<Longrightarrow> oid f < freshOid fs"
proof -
  assume "f \<in> set fs"
  then have "oid f \<in> set (map oid fs)"
    by simp
  with fold_max_ge [of 0 "map oid fs"] have "oid f \<le> fold max (map oid fs) 0"
    by blast
  then show ?thesis
    by (simp add: freshOid_def)
qed

lemma newFiles_Some:
  "newFiles n es = Some fs \<Longrightarrow>
     map name fs = map fst es
   \<and> map (\<lambda>f. Some (fsize f, content f)) fs = map (\<lambda>e. async_blob (snd e)) es
   \<and> (\<forall>f \<in> set fs. n \<le> oid f)"
proof (induction n es arbitrary: fs rule: newFiles.induct)
  case (1 n)
  then show ?case by simp
next
  case (2 n nm z es)
  from "2.prems" obtain sz bs fs' where
    blob: "async_blob z = Some (sz, bs)" and rest: "newFiles (Suc n) es = Some fs'"
    and fs: "fs = \<lparr>oid = n, name = nm, fsize = sz, content = bs\<rparr> # fs'"
    by (auto split: option.splits)
  from "2.IH" [OF blob refl rest] have
    "map name fs' = map fst es"
    "map (\<lambda>f. Some (fsize f, content f)) fs' = map (\<lambda>e. async_blob (snd e)) es"
    "\<forall>f \<in> set fs'. Suc n \<le> oid f"
    by simp_all
  with blob fs show ?case
    by (auto simp: Suc_leD)
qed

lemma newFiles_total:
  "\<forall>e \<in> set es. async_blob (snd e) \<noteq> None \<Longrightarrow> \<exists>fs. newFiles n es = Some fs"
proof (induction n es rule: newFiles.induct)
  case (1 n)
  show ?case by simp
next
  case (2 n nm z es)
  from "2.prems" obtain sz bs where blob: "async_blob z = Some (sz, bs)"
    by auto
  from "2.prems" have "\<forall>e \<in> set es. async_blob (snd e) \<noteq> None"
    by simp
  from "2.IH" [OF blob refl this] obtain fs' where "newFiles (Suc n) es = Some fs'"
    by blast
  with blob show ?case by simp
qed

lemma nondir_filter:
  "filter (\<lambda>(nm, z). \<not> dir z) cf = filter (\<lambda>e. \<not> dir (snd e)) cf"
  by (simp add: case_prod_unfold)

lemma find_first:
  "\<forall>x \<in> set pre. \<not> P x \<Longrightarrow> P z \<Longrightarrow> find P (pre @ z # post) = Some z"
  by (induction pre) auto

lemma extractArchive_none:
  assumes "find (\<lambda>f. endsWith (name f) ''.zip'') (files s) = None"
  shows "extractArchive cdc s = (Inr (), updateUI 20 ''Extracting archive...'' s)"
  using assms by (simp add: extractArchive_def updateUI_def)

lemma extractArchive_some:
  assumes "find (\<lambda>f. endsWith (name f) ''.zip'') (files s) = Some z"
    and "loadAsync cdc z = Some cf"
    and "newFiles (freshOid (files s)) (filter (\<lambda>e. \<not> dir (snd e)) cf) = Some zs"
  shows "extractArchive cdc s =
     (Inr (), (updateUI 20 ''Extracting archive...'' s)
                \<lparr>files := filter (\<lambda>f. f \<noteq> z) (files s) @ zs\<rparr>)"
  using assms by (simp add: extractArchive_def updateUI_def nondir_filter)

lemma extractArchive_Inr:
  assumes "extractArchive cdc s = (Inr (), s')"
    and "find (\<lambda>f. endsWith (name f) ''.zip'') (files s) = Some z"
  shows "\<exists>cf zs. loadAsync cdc z = Some cf
     \<and> newFiles (freshOid (files s)) (filter (\<lambda>e. \<not> dir (snd e)) cf) = Some zs
     \<and> files s' = filter (\<lambda>f. f \<noteq> z) (files s) @ zs"
  using assms
  by (auto simp: extractArchive_def updateUI_def nondir_filter Let_def split: option.splits)

lemma new_file_not_old:
  assumes "newFiles (freshOid fs) es = Some zs" "z \<in> set fs"
  shows "z \<notin> set zs"
proof
  assume "z \<in> set zs"
  with newFiles_Some [OF assms(1)] have "freshOid fs \<le> oid z"
    by blast
  with freshOid_gt [OF assms(2)] show False
    by simp
qed

text \<open>
  C4 (as amended): when \<^verbatim>\<open>z\<close> is the first file of the working set whose name ends in
  \<^verbatim>\<open>.zip\<close> and decoding it succeeds, Archive Expansion completes, removes \<^verbatim>\<open>z\<close> from the
  working set, keeps the other files in their order, and appends one new file per
  non-directory entry of the archive at the end of the working set, in the order of the
  entries, named by the entry's path and holding the entry's bytes. Directory entries give
  no file.
\<close>

theorem extractArchive_appends_entries:
  assumes first: "files s = pre @ z # post" "endsWith (name z) ''.zip''"
      "\<forall>f \<in> set pre. \<not> endsWith (name f) ''.zip''"
    and decode: "loadAsync cdc z = Some cf"
      "\<forall>e \<in> set cf. \<not> dir (snd e) \<longrightarrow> async_blob (snd e) \<noteq> None"
  shows "\<exists>zs.
      extractArchive cdc s =
        (Inr (), (updateUI 20 ''Extracting archive...'' s)
                   \<lparr>files := pre @ filter (\<lambda>f. f \<noteq> z) post @ zs\<rparr>)
    \<and> z \<notin> set (pre @ filter (\<lambda>f. f \<noteq> z) post @ zs)
    \<and> map name zs = map fst (filter (\<lambda>e. \<not> dir (snd e)) cf)
    \<and> map (\<lambda>f. Some (fsize f, content f)) zs =
        map (\<lambda>e. async_blob (snd e)) (filter (\<lambda>e. \<not> dir (snd e)) cf)"
proof -
  from first have found: "find (\<lambda>f. endsWith (name f) ''.zip'') (files s) = Some z"
    by (simp add: find_first)
  from decode(2) have "\<forall>e \<in> set (filter (\<lambda>e. \<not> dir (snd e)) cf). async_blob (snd e) \<noteq> None"
    by simp
  from newFiles_total [OF this] obtain zs where
    zs: "newFiles (freshOid (files s)) (filter (\<lambda>e. \<not> dir (snd e)) cf) = Some zs"
    by blast
  from first(1,3) first(2) have zpre: "z \<notin> set pre"
    by auto
  then have keep: "filter (\<lambda>f. f \<noteq> z) (files s) = pre @ filter (\<lambda>f. f \<noteq> z) post"
    using first(1) by (auto simp: filter_id_conv)
  from first(1) have "z \<in> set (files s)"
    by simp
  from new_file_not_old [OF zs this] have znew: "z \<notin> set zs" .
  from extractArchive_some [OF found decode(1) zs] keep
  have "extractArchive cdc s =
        (Inr (), (updateUI 20 ''Extracting archive...'' s)
                   \<lparr>files := pre @ filter (\<lambda>f. f \<noteq> z) post @ zs\<rparr>)"
    by simp
  moreover from zpre znew have "z \<notin> set (pre @ filter (\<lambda>f. f \<noteq> z) post @ zs)"
    by simp
  ultimately show ?thesis
    using newFiles_Some [OF zs] by blast
qed


theorem extractArchive_appends_entries_witness:
  "files (constructor\<lparr>files := archive_first\<rparr>) =
     [] @ \<lparr>oid = 0, name = ''mod.zip'', fsize = 2, content = ''PK''\<rparr>
        # [\<lparr>oid = 1, name = ''z.ogg'', fsize = 3, content = ''Ogg''\<rparr>]
   \<and> endsWith ''mod.zip'' ''.zip''
   \<and> loadAsync example_codec \<lparr>oid = 0, name = ''mod.zip'', fsize = 2, content = ''PK''\<rparr>
       = Some example_archive
   \<and> (\<exists>zs. files (snd (extractArchive example_codec (constructor\<lparr>files := archive_first\<rparr>))) =
         \<lparr>oid = 1, name = ''z.ogg'', fsize = 3, content = ''Ogg''\<rparr> # zs
       \<and> map name zs =
           [''songs/a.ogg'', ''data/b.json'', ''images/c.png'', ''extra/data/evil.exe''])"
proof -
  let ?z = "\<lparr>oid = 0, name = ''mod.zip'', fsize = 2, content = ''PK''\<rparr>"
  let ?o = "\<lparr>oid = 1, name = ''z.ogg'', fsize = 3, content = ''Ogg''\<rparr>"
  let ?s = "constructor\<lparr>files := archive_first\<rparr>"
  have h1: "files ?s = [] @ ?z # [?o]"
    by (simp add: archive_first_def)
  have h2: "endsWith (name ?z) ''.zip''"
    by (simp add: endsWith_def)
  have h3: "\<forall>f \<in> set []. \<not> endsWith (name f) ''.zip''"
    by simp
  have h4: "loadAsync example_codec ?z = Some example_archive"
    by (simp add: example_codec_def example_loadAsync_def)
  have h5: "\<forall>e \<in> set example_archive. \<not> dir (snd e) \<longrightarrow> async_blob (snd e) \<noteq> None"
    by (simp add: example_archive_def)
  from extractArchive_appends_entries [OF h1 h2 h3 h4 h5]
  obtain zs where
    "extractArchive example_codec ?s =
       (Inr (), (updateUI 20 ''Extracting archive...'' ?s)
                  \<lparr>files := [] @ filter (\<lambda>f. f \<noteq> ?z) [?o] @ zs\<rparr>)"
    and "map name zs = map fst (filter (\<lambda>e. \<not> dir (snd e)) example_archive)"
    by blast
  then have "files (snd (extractArchive example_codec ?s)) = ?o # zs
       \<and> map name zs =
           [''songs/a.ogg'', ''data/b.json'', ''images/c.png'', ''extra/data/evil.exe'']"
    by (simp add: example_archive_def)
  with h1 h2 h4 show ?thesis
    by auto
qed


text \<open>
  The entries do not take the place of the archive: in a run on an archive followed by a
  song, the working set after expansion starts with the song.
\<close>

theorem entries_appended_counterexample:
  "map name (files (snd (processFiles example_codec archive_first constructor))) =
     [''z.ogg'', ''songs/a.ogg'', ''data/b.json'', ''images/c.png'', ''extra/data/evil.exe'']
   \<and> map name archive_first = [''mod.zip'', ''z.ogg'']"
  by (simp add: run_defs example_defs archive_first_def)

text \<open>
  With two archives in the batch, the second one is still in the working set after
  expansion; and when the one archive of a batch holds an archive, that entry is in the
  working set after expansion.
\<close>

theorem archive_names_remain_counterexample:
  "map name (files (snd (processFiles example_codec two_archives constructor))) =
     [''second.zip'', ''songs/a.ogg'', ''data/b.json'', ''images/c.png'',
      ''extra/data/evil.exe'']
   \<and> endsWith ''second.zip'' ''.zip''
   \<and> map name archive_first = [''mod.zip'', ''z.ogg'']
   \<and> map name (files (snd (processFiles nested_codec archive_first constructor))) =
       [''z.ogg'', ''inner/pack.zip'']
   \<and> endsWith ''inner/pack.zip'' ''.zip''"
  by (simp add: run_defs example_defs two_archives_def archive_first_def nested_codec_def
      nested_loadAsync_def nested_archive_def)

text \<open>
  C3 (as amended): after Archive Expansion completes, the archive that was expanded (the
  first file whose name ends in \<^verbatim>\<open>.zip\<close>) is no longer in the working set; and when at most
  one file of the working set has a name ending in \<^verbatim>\<open>.zip\<close> and no file entry of the
  expanded archive has such a name, no element of the working set has a name ending in
  \<^verbatim>\<open>.zip\<close>. Nothing is asked of what the other files of the working set would decode to.
\<close>

theorem extractArchive_removes_expanded:
  assumes ok: "extractArchive cdc s = (Inr (), s')"
  shows "(\<forall>z. find (\<lambda>f. endsWith (name f) ''.zip'') (files s) = Some z \<longrightarrow> z \<notin> set (files s'))
    \<and> ((\<forall>f \<in> set (files s). \<forall>g \<in> set (files s).
            endsWith (name f) ''.zip'' \<and> endsWith (name g) ''.zip'' \<longrightarrow> f = g)
       \<and> (\<forall>z cf. find (\<lambda>f. endsWith (name f) ''.zip'') (files s) = Some z
                \<and> loadAsync cdc z = Some cf \<longrightarrow>
            (\<forall>e \<in> set cf. \<not> dir (snd e) \<longrightarrow> \<not> endsWith (fst e) ''.zip''))
       \<longrightarrow> (\<forall>f \<in> set (files s'). \<not> endsWith (name f) ''.zip''))"
proof (cases "find (\<lambda>f. endsWith (name f) ''.zip'') (files s)")
  case None
  with ok have "files s' = files s"
    by (auto simp: extractArchive_none updateUI_def)
  moreover from None have "\<forall>f \<in> set (files s). \<not> endsWith (name f) ''.zip''"
    by (simp add: find_None_iff)
  ultimately show ?thesis
    using None by simp
next
  case (Some z)
  from extractArchive_Inr [OF ok Some] obtain cf zs where
    cf: "loadAsync cdc z = Some cf"
    and zs: "newFiles (freshOid (files s)) (filter (\<lambda>e. \<not> dir (snd e)) cf) = Some zs"
    and fs: "files s' = filter (\<lambda>f. f \<noteq> z) (files s) @ zs"
    by blast
  from Some have zin: "z \<in> set (files s)" and zzip: "endsWith (name z) ''.zip''"
    by (auto simp: find_Some_iff)
  from new_file_not_old [OF zs zin] fs have gone: "z \<notin> set (files s')"
    by simp
  have clean: "\<forall>f \<in> set (files s'). \<not> endsWith (name f) ''.zip''"
    if one: "\<forall>f \<in> set (files s). \<forall>g \<in> set (files s).
            endsWith (name f) ''.zip'' \<and> endsWith (name g) ''.zip'' \<longrightarrow> f = g"
    and inner: "\<forall>z cf. find (\<lambda>f. endsWith (name f) ''.zip'') (files s) = Some z
                \<and> loadAsync cdc z = Some cf \<longrightarrow>
            (\<forall>e \<in> set cf. \<not> dir (snd e) \<longrightarrow> \<not> endsWith (fst e) ''.zip'')"
  proof
    fix f
    assume "f \<in> set (files s')"
    with fs consider (old) "f \<in> set (files s)" "f \<noteq> z" | (new) "f \<in> set zs"
      by auto
    then show "\<not> endsWith (name f) ''.zip''"
    proof cases
      case old
      with one zin zzip show ?thesis
        by blast
    next
      case new
      then have "name f \<in> set (map name zs)"
        by simp
      with newFiles_Some [OF zs] have "name f \<in> fst ` set (filter (\<lambda>e. \<not> dir (snd e)) cf)"
        by simp
      then obtain e where "e \<in> set cf" "\<not> dir (snd e)" "fst e = name f"
        by auto
      with inner [rule_format, OF conjI, OF Some cf, of e] show ?thesis
        by simp
    qed
  qed
  from gone clean Some show ?thesis
    by simp
qed


theorem extractArchive_removes_expanded_witness:
  "fst (extractArchive mixed_codec (constructor\<lparr>files := archive_first\<rparr>)) = Inr ()
   \<and> \<lparr>oid = 0, name = ''mod.zip'', fsize = 2, content = ''PK''\<rparr>
       \<notin> set (files (snd (extractArchive mixed_codec (constructor\<lparr>files := archive_first\<rparr>))))
   \<and> \<not> list_ex (\<lambda>f. endsWith (name f) ''.zip'')
         (files (snd (extractArchive mixed_codec (constructor\<lparr>files := archive_first\<rparr>))))
   \<and> loadAsync mixed_codec \<lparr>oid = 1, name = ''z.ogg'', fsize = 3, content = ''Ogg''\<rparr>
       = Some nested_archive"
proof -
  let ?z = "\<lparr>oid = 0, name = ''mod.zip'', fsize = 2, content = ''PK''\<rparr>"
  let ?s = "constructor\<lparr>files := archive_first\<rparr>"
  have ok: "fst (extractArchive mixed_codec ?s) = Inr ()"
    by (simp add: run_defs example_defs archive_first_def mixed_codec_def mixed_loadAsync_def)
  then have run: "extractArchive mixed_codec ?s = (Inr (), snd (extractArchive mixed_codec ?s))"
    by (simp add: prod_eq_iff)
  have found: "find (\<lambda>f. endsWith (name f) ''.zip'') (files ?s) = Some ?z"
    by (simp add: archive_first_def endsWith_def)
  have one: "\<forall>f \<in> set (files ?s). \<forall>g \<in> set (files ?s).
            endsWith (name f) ''.zip'' \<and> endsWith (name g) ''.zip'' \<longrightarrow> f = g"
    by (simp add: archive_first_def endsWith_def)
  have inner: "\<forall>z cf. find (\<lambda>f. endsWith (name f) ''.zip'') (files ?s) = Some z
                \<and> loadAsync mixed_codec z = Some cf \<longrightarrow>
            (\<forall>e \<in> set cf. \<not> dir (snd e) \<longrightarrow> \<not> endsWith (fst e) ''.zip'')"
    unfolding found
    by (auto simp: mixed_codec_def mixed_loadAsync_def example_archive_def endsWith_def)
  note inst = extractArchive_removes_expanded [OF run]
  from inst found have gone: "?z \<notin> set (files (snd (extractArchive mixed_codec ?s)))"
    by blast
  from inst one inner
  have "\<forall>f \<in> set (files (snd (extractArchive mixed_codec ?s))). \<not> endsWith (name f) ''.zip''"
    by blast
  then have "\<not> list_ex (\<lambda>f. endsWith (name f) ''.zip'')
         (files (snd (extractArchive mixed_codec ?s)))"
    by (simp add: list_ex_iff)
  moreover have "loadAsync mixed_codec \<lparr>oid = 1, name = ''z.ogg'', fsize = 3, content = ''Ogg''\<rparr>
       = Some nested_archive"
    by (simp add: mixed_codec_def mixed_loadAsync_def)
  ultimately show ?thesis
    using ok gone by simp
qed

section \<open>Chart conversion over the data bucket\<close>

lemma convertChart_fields:
  "files (convertChart cdc f s) = files s"
  "vsliceStructure (convertChart cdc f s) = vsliceStructure s"
  "progress (convertChart cdc f s) = progress s"
  "errorShown (convertChart cdc f s) = errorShown s"
  by (simp_all add: convertChart_def split: option.splits)

lemma fold_convertChart_fields:
  "files (fold (convertChart cdc) fs s) = files s
   \<and> vsliceStructure (fold (convertChart cdc) fs s) = vsliceStructure s
   \<and> progress (fold (convertChart cdc) fs s) = progress s
   \<and> errorShown (fold (convertChart cdc) fs s) = errorShown s"
  by (induction fs arbitrary: s) (simp_all add: convertChart_fields)

lemma convertChart_error:
  "conversionError (convertChart cdc f s) g \<longleftrightarrow>
     conversionError s g \<or> (g = f \<and> endsWith (name f) ''.json'' \<and> tryConvert cdc f = None)"
  by (auto simp: convertChart_def split: option.splits)

lemma fold_convertChart_error:
  "conversionError (fold (convertChart cdc) fs s) g \<longleftrightarrow>
     conversionError s g
     \<or> (g \<in> set fs \<and> endsWith (name g) ''.json'' \<and> tryConvert cdc g = None)"
  by (induction fs arbitrary: s) (auto simp: convertChart_error)

lemma convertChart_converted:
  "converted (convertChart cdc f s) g =
     (if g = f \<and> endsWith (name f) ''.json'' \<and> tryConvert cdc f \<noteq> None
      then tryConvert cdc f else converted s g)"
  by (auto simp: convertChart_def split: option.splits)

lemma fold_convertChart_converted:
  "converted (fold (convertChart cdc) fs s) g =
     (if g \<in> set fs \<and> endsWith (name g) ''.json'' \<and> tryConvert cdc g \<noteq> None
      then tryConvert cdc g else converted s g)"
  by (induction fs arbitrary: s) (auto simp: convertChart_converted)

lemma convertToVSlice_truthy: "convertToVSlice c = Inr v \<Longrightarrow> truthy v"
  by (auto simp: convertToVSlice_def split: sum.splits)

lemma tryConvert_truthy: "tryConvert cdc f = Some v \<Longrightarrow> truthy v"
  by (auto simp: tryConvert_def convertToVSlice_truthy split: option.splits sum.splits)

section \<open>Packaging\<close>

lemma addFiles_zfiles:
  "zfiles (addFiles cdc s fs folderName z) =
     zfiles z @ map (\<lambda>f. (zroot z @ folderName @ ''/'' @ name f, fileContent cdc s f))
                  (filter (\<lambda>f. \<not> conversionError s f) fs)
   \<and> zroot (addFiles cdc s fs folderName z) = zroot z"
proof (induction fs arbitrary: z)
  case Nil
  show ?case by (simp add: addFiles_def)
next
  case (Cons f fs)
  from Cons.IH [of "addFile cdc s folderName f z"] show ?case
    by (simp add: addFiles_def addFile_def zip_file_def)
qed

lemma zfiles_vsliceZip:
  "zfiles (vsliceZip cdc s) =
     map (\<lambda>f. (''vslice_mod/songs/'' @ name f, fileContent cdc s f))
       (filter (\<lambda>f. \<not> conversionError s f) (songs (vsliceStructure s)))
   @ map (\<lambda>f. (''vslice_mod/data/'' @ name f, fileContent cdc s f))
       (filter (\<lambda>f. \<not> conversionError s f) (data (vsliceStructure s)))
   @ map (\<lambda>f. (''vslice_mod/images/'' @ name f, fileContent cdc s f))
       (filter (\<lambda>f. \<not> conversionError s f) (images (vsliceStructure s)))"
  by (simp add: vsliceZip_def Let_def addFiles_zfiles folder_def new_JSZip_def)

lemma updateUI_fields:
  "files (updateUI p m s) = files s"
  "vsliceStructure (updateUI p m s) = vsliceStructure s"
  "converted (updateUI p m s) = converted s"
  "conversionError (updateUI p m s) = conversionError s"
  by (simp_all add: updateUI_def)

lemma addFile_updateUI: "addFile cdc (updateUI p m s) = addFile cdc s"
  by (intro ext) (simp add: addFile_def fileContent_def updateUI_def)

lemma vsliceZip_updateUI: "vsliceZip cdc (updateUI p m s) = vsliceZip cdc s"
proof -
  have "vsliceStructure (updateUI p m s) = vsliceStructure s"
    by (simp add: updateUI_def)
  then show ?thesis
    by (simp add: vsliceZip_def addFiles_def addFile_updateUI)
qed

section \<open>A whole run\<close>

lemma validateFiles_Inr:
  "validateFiles fs s1 = (Inr u, s2) \<Longrightarrow>
     s2 = s1\<lparr>files := filter (\<lambda>f. isValidType f \<and> isValidSize f) fs\<rparr>"
  by (auto simp: validateFiles_def Let_def split: if_splits)

lemma extractArchive_fields:
  "vsliceStructure (snd (extractArchive cdc s)) = vsliceStructure s
   \<and> converted (snd (extractArchive cdc s)) = converted s
   \<and> conversionError (snd (extractArchive cdc s)) = conversionError s"
  by (simp add: extractArchive_def updateUI_def Let_def split: option.splits)

lemma expansion_fields:
  assumes "(if hasArchive s2 then extractArchive cdc s2 else (Inr (), s2)) = (r, s3)"
  shows "vsliceStructure s3 = vsliceStructure s2 \<and> converted s3 = converted s2
     \<and> conversionError s3 = conversionError s2"
proof (cases "hasArchive s2")
  case True
  with assms have "s3 = snd (extractArchive cdc s2)"
    by simp
  then show ?thesis
    by (simp add: extractArchive_fields)
next
  case False
  with assms show ?thesis by simp
qed

lemma convertCharts_organizeFiles:
  "vsliceStructure (convertCharts cdc (organizeFiles s3)) = vsliceStructure (organizeFiles s3)
   \<and> files (convertCharts cdc (organizeFiles s3)) = files s3
   \<and> (conversionError (convertCharts cdc (organizeFiles s3)) g \<longleftrightarrow>
        conversionError s3 g
        \<or> (g \<in> set (data (vsliceStructure (organizeFiles s3))) \<and> endsWith (name g) ''.json''
           \<and> tryConvert cdc g = None))
   \<and> converted (convertCharts cdc (organizeFiles s3)) g =
       (if g \<in> set (data (vsliceStructure (organizeFiles s3))) \<and> endsWith (name g) ''.json''
           \<and> tryConvert cdc g \<noteq> None
        then tryConvert cdc g else converted s3 g)"
  by (auto simp: convertCharts_def Let_def fold_convertChart_fields fold_convertChart_error
      fold_convertChart_converted updateUI_def organizeFiles_def)

text \<open>The state in which a run that passed intake and expansion builds the archive.\<close>

lemma createVSliceZip_eq:
  "createVSliceZip cdc s5 =
     (case generateAsync cdc (zfiles (vsliceZip cdc s5)) of
        Inl message \<Rightarrow>
          (Inl (Error message),
           updateUI 90 ''Finalizing...'' (updateUI 80 ''Creating package...'' s5))
      | Inr b \<Rightarrow>
          (Inr \<lparr>oid = freshOid (files s5), name = ''vslice_mod.zip'', fsize = fst b,
                 content = snd b\<rparr>,
           updateUI 90 ''Finalizing...'' (updateUI 80 ''Creating package...'' s5)))"
  by (simp add: createVSliceZip_def Let_def vsliceZip_updateUI updateUI_fields
      split: sum.splits prod.splits)

lemma processFiles_Inr:
  assumes "processFiles cdc fs s0 = (Inr out, s)"
  shows "\<exists>s2 s3.
      validateFiles fs (updateUI 10 ''Checking files...'' s0) = (Inr (), s2)
    \<and> (if hasArchive s2 then extractArchive cdc s2 else (Inr (), s2)) = (Inr (), s3)
    \<and> generateAsync cdc (zfiles (vsliceZip cdc (convertCharts cdc (organizeFiles s3)))) =
        Inr (fsize out, content out)
    \<and> name out = ''vslice_mod.zip''
    \<and> s = updateUI 90 ''Finalizing...''
            (updateUI 80 ''Creating package...'' (convertCharts cdc (organizeFiles s3)))"
proof -
  let ?s1 = "updateUI 10 ''Checking files...'' s0"
  obtain r2 s2 where v: "validateFiles fs ?s1 = (r2, s2)"
    by (cases "validateFiles fs ?s1")
  obtain r3 s3 where
    x: "(if hasArchive s2 then extractArchive cdc s2 else (Inr (), s2)) = (r3, s3)"
    by (cases "if hasArchive s2 then extractArchive cdc s2 else (Inr (), s2)")
  let ?s5 = "convertCharts cdc (organizeFiles s3)"
  from assms v have r2: "r2 = Inr ()"
    by (cases r2) (simp_all add: processFiles_def split: error.splits)
  with assms v x have r3: "r3 = Inr ()"
    by (cases r3) (simp_all add: processFiles_def split: error.splits)
  with assms v x r2 have c: "createVSliceZip cdc ?s5 = (Inr out, s)"
    by (cases "createVSliceZip cdc ?s5"; cases "fst (createVSliceZip cdc ?s5)")
      (simp_all add: processFiles_def split: error.splits)
  then obtain b where g: "generateAsync cdc (zfiles (vsliceZip cdc ?s5)) = Inr b"
    by (cases "generateAsync cdc (zfiles (vsliceZip cdc ?s5))")
      (simp_all add: createVSliceZip_eq)
  with c have "out = \<lparr>oid = freshOid (files ?s5), name = ''vslice_mod.zip'', fsize = fst b,
                 content = snd b\<rparr>"
    and "s = updateUI 90 ''Finalizing...'' (updateUI 80 ''Creating package...'' ?s5)"
    by (simp_all add: createVSliceZip_eq)
  with g v x r2 r3 show ?thesis
    by simp
qed

lemma processFiles_stages:
  assumes "validateFiles fs (updateUI 10 ''Checking files...'' s0) = (Inr (), s2)"
    and "(if hasArchive s2 then extractArchive cdc s2 else (Inr (), s2)) = (Inr (), s3)"
    and "generateAsync cdc (zfiles (vsliceZip cdc (convertCharts cdc (organizeFiles s3)))) = Inr b"
  shows "processFiles cdc fs s0 =
     (Inr \<lparr>oid = freshOid (files s3), name = ''vslice_mod.zip'', fsize = fst b,
            content = snd b\<rparr>,
      updateUI 90 ''Finalizing...''
        (updateUI 80 ''Creating package...'' (convertCharts cdc (organizeFiles s3))))"
  using assms
  by (simp add: processFiles_def Let_def createVSliceZip_eq convertCharts_organizeFiles)


lemma run_final_state:
  assumes "processFiles cdc fs constructor = (Inr out, s)"
  shows "\<exists>s3.
      (if hasArchive ((updateUI 10 ''Checking files...'' constructor)
                        \<lparr>files := filter (\<lambda>f. isValidType f \<and> isValidSize f) fs\<rparr>)
       then extractArchive cdc ((updateUI 10 ''Checking files...'' constructor)
                        \<lparr>files := filter (\<lambda>f. isValidType f \<and> isValidSize f) fs\<rparr>)
       else (Inr (), (updateUI 10 ''Checking files...'' constructor)
                        \<lparr>files := filter (\<lambda>f. isValidType f \<and> isValidSize f) fs\<rparr>))
        = (Inr (), s3)
    \<and> files s = files s3
    \<and> vsliceStructure s = vsliceStructure (organizeFiles s3)
    \<and> (\<forall>g. conversionError s g \<longleftrightarrow>
            g \<in> set (data (vsliceStructure s)) \<and> endsWith (name g) ''.json''
            \<and> tryConvert cdc g = None)
    \<and> (\<forall>g. converted s g =
            (if g \<in> set (data (vsliceStructure s)) \<and> endsWith (name g) ''.json''
             then tryConvert cdc g else None))
    \<and> generateAsync cdc (zfiles (vsliceZip cdc s)) = Inr (fsize out, content out)
    \<and> name out = ''vslice_mod.zip''"
proof -
  from processFiles_Inr [OF assms] obtain s2 s3 where
    v: "validateFiles fs (updateUI 10 ''Checking files...'' constructor) = (Inr (), s2)"
    and x: "(if hasArchive s2 then extractArchive cdc s2 else (Inr (), s2)) = (Inr (), s3)"
    and g: "generateAsync cdc (zfiles (vsliceZip cdc (convertCharts cdc (organizeFiles s3)))) =
        Inr (fsize out, content out)"
    and n: "name out = ''vslice_mod.zip''"
    and s: "s = updateUI 90 ''Finalizing...''
            (updateUI 80 ''Creating package...'' (convertCharts cdc (organizeFiles s3)))"
    by blast
  from validateFiles_Inr [OF v] have s2:
    "s2 = (updateUI 10 ''Checking files...'' constructor)
            \<lparr>files := filter (\<lambda>f. isValidType f \<and> isValidSize f) fs\<rparr>" .
  then have "converted s2 = (\<lambda>f. None)" "conversionError s2 = (\<lambda>f. False)"
    by (simp_all add: updateUI_def constructor_def)
  with expansion_fields [OF x] have fresh:
    "converted s3 = (\<lambda>f. None)" "conversionError s3 = (\<lambda>f. False)"
    by simp_all
  have "files s = files s3"
    "vsliceStructure s = vsliceStructure (organizeFiles s3)"
    "\<forall>g. conversionError s g \<longleftrightarrow>
            g \<in> set (data (vsliceStructure s)) \<and> endsWith (name g) ''.json''
            \<and> tryConvert cdc g = None"
    "\<forall>g. converted s g =
            (if g \<in> set (data (vsliceStructure s)) \<and> endsWith (name g) ''.json''
             then tryConvert cdc g else None)"
    unfolding s using fresh
    by (auto simp: updateUI_fields convertCharts_organizeFiles)
  moreover from g have "generateAsync cdc (zfiles (vsliceZip cdc s)) = Inr (fsize out, content out)"
    unfolding s by (simp add: vsliceZip_updateUI)
  ultimately show ?thesis
    using x n unfolding s2 by blast
qed

lemma entries_from_unflagged:
  "\<forall>e \<in> set (zfiles (vsliceZip cdc s)).
     \<exists>g. \<not> conversionError s g \<and> snd e = fileContent cdc s g
       \<and> (g \<in> set (songs (vsliceStructure s)) \<and> fst e = ''vslice_mod/songs/'' @ name g
          \<or> g \<in> set (data (vsliceStructure s)) \<and> fst e = ''vslice_mod/data/'' @ name g
          \<or> g \<in> set (images (vsliceStructure s)) \<and> fst e = ''vslice_mod/images/'' @ name g)"
  unfolding zfiles_vsliceZip by auto

lemma surviving_written:
  assumes "\<not> conversionError s f"
  shows "(f \<in> set (songs (vsliceStructure s)) \<longrightarrow>
            (''vslice_mod/songs/'' @ name f, fileContent cdc s f) \<in> set (zfiles (vsliceZip cdc s)))
    \<and> (f \<in> set (data (vsliceStructure s)) \<longrightarrow>
            (''vslice_mod/data/'' @ name f, fileContent cdc s f) \<in> set (zfiles (vsliceZip cdc s)))
    \<and> (f \<in> set (images (vsliceStructure s)) \<longrightarrow>
            (''vslice_mod/images/'' @ name f, fileContent cdc s f) \<in> set (zfiles (vsliceZip cdc s)))"
  using assms unfolding zfiles_vsliceZip by auto

lemma tryConvert_Some_iff:
  "tryConvert cdc f = Some v \<longleftrightarrow>
     (\<exists>chart. JSON_parse cdc (content f) = Some chart \<and> convertToVSlice chart = Inr v)"
  by (auto simp: tryConvert_def split: option.splits sum.splits)

lemma fileContent_final:
  assumes "processFiles cdc fs constructor = (Inr out, s)"
  shows "fileContent cdc s f =
     (case converted s f of None \<Rightarrow> Blob f | Some v \<Rightarrow> Text (JSON_stringify cdc v))"
proof (cases "converted s f")
  case None
  then show ?thesis by (simp add: fileContent_def)
next
  case (Some v)
  with run_final_state [OF assms] have "tryConvert cdc f = Some v"
    by (metis option.distinct(1))
  then have "truthy v"
    by (rule tryConvert_truthy)
  with Some show ?thesis
    by (simp add: fileContent_def)
qed

lemma organizeFiles_buckets:
  "songs (vsliceStructure (organizeFiles s)) =
     filter (\<lambda>f. endsWith (name f) ''.ogg'' \<or> includes_str (name f) ''/songs/'') (files s)"
  "data (vsliceStructure (organizeFiles s)) =
     filter (\<lambda>f. endsWith (name f) ''.json'' \<or> includes_str (name f) ''/data/'') (files s)"
  "images (vsliceStructure (organizeFiles s)) =
     filter (\<lambda>f. endsWith (name f) ''.png'' \<or> includes_str (name f) ''/images/'') (files s)"
  by (simp_all add: organizeFiles_def updateUI_def)

lemma run_buckets:
  assumes "processFiles cdc fs constructor = (Inr out, s)"
  shows "songs (vsliceStructure s) =
     filter (\<lambda>f. endsWith (name f) ''.ogg'' \<or> includes_str (name f) ''/songs/'') (files s)"
    "data (vsliceStructure s) =
     filter (\<lambda>f. endsWith (name f) ''.json'' \<or> includes_str (name f) ''/data/'') (files s)"
    "images (vsliceStructure s) =
     filter (\<lambda>f. endsWith (name f) ''.png'' \<or> includes_str (name f) ''/images/'') (files s)"
proof -
  from run_final_state [OF assms] obtain s3 where
    "files s = files s3" "vsliceStructure s = vsliceStructure (organizeFiles s3)"
    by blast
  then show
    "songs (vsliceStructure s) =
     filter (\<lambda>f. endsWith (name f) ''.ogg'' \<or> includes_str (name f) ''/songs/'') (files s)"
    "data (vsliceStructure s) =
     filter (\<lambda>f. endsWith (name f) ''.json'' \<or> includes_str (name f) ''/data/'') (files s)"
    "images (vsliceStructure s) =
     filter (\<lambda>f. endsWith (name f) ''.png'' \<or> includes_str (name f) ''/images/'') (files s)"
    by (simp_all add: organizeFiles_buckets)
qed

lemma run_not_json:
  assumes "processFiles cdc fs constructor = (Inr out, s)" "\<not> endsWith (name f) ''.json''"
  shows "\<not> conversionError s f \<and> fileContent cdc s f = Blob f"
proof -
  from run_final_state [OF assms(1)] assms(2)
  have "\<not> conversionError s f" "converted s f = None"
    by auto
  then show ?thesis
    by (simp add: fileContent_def)
qed

lemma fileContent_Blob: "fileContent cdc s g = Blob h \<Longrightarrow> h = g"
  by (auto simp: fileContent_def split: option.splits if_splits)

lemma flagged_not_packaged:
  assumes "conversionError s f"
  shows "\<forall>e \<in> set (zfiles (vsliceZip cdc s)). snd e \<noteq> Blob f"
proof
  fix e
  assume "e \<in> set (zfiles (vsliceZip cdc s))"
  then obtain g where "\<not> conversionError s g" "snd e = fileContent cdc s g"
    unfolding zfiles_vsliceZip by auto
  with assms show "snd e \<noteq> Blob f"
    using fileContent_Blob by metis
qed


lemma tryConvert_None_iff:
  "tryConvert cdc f = None \<longleftrightarrow>
     JSON_parse cdc (content f) = None
     \<or> (\<exists>chart e. JSON_parse cdc (content f) = Some chart \<and> convertToVSlice chart = Inl e)"
  by (auto simp: tryConvert_def split: option.splits sum.splits)

lemma converted_chart_written:
  assumes run: "processFiles cdc fs constructor = (Inr out, s)"
    and g: "g \<in> set (data (vsliceStructure s))" "endsWith (name g) ''.json''"
    and ok: "JSON_parse cdc (content g) = Some chart" "convertToVSlice chart = Inr v"
  shows "\<not> conversionError s g
    \<and> (''vslice_mod/data/'' @ name g, Text (JSON_stringify cdc v)) \<in> set (zfiles (vsliceZip cdc s))"
proof -
  from ok have t: "tryConvert cdc g = Some v"
    by (simp add: tryConvert_def)
  from run_final_state [OF run] have
    "conversionError s g \<longleftrightarrow>
       g \<in> set (data (vsliceStructure s)) \<and> endsWith (name g) ''.json''
       \<and> tryConvert cdc g = None"
    "converted s g =
       (if g \<in> set (data (vsliceStructure s)) \<and> endsWith (name g) ''.json''
        then tryConvert cdc g else None)"
    by blast+
  with t g have surv: "\<not> conversionError s g" and conv: "converted s g = Some v"
    by simp_all
  from conv have "fileContent cdc s g = Text (JSON_stringify cdc v)"
    unfolding fileContent_final [OF run] by simp
  with surviving_written [OF surv, of cdc] g(1) surv show ?thesis
    by simp
qed

text \<open>What the archive holds under a name: the data of the last call with that name.\<close>

lemma map_of_append_lookup:
  "map_of (xs @ ys) k = (case map_of xs k of None \<Rightarrow> map_of ys k | Some v \<Rightarrow> Some v)"
  by (simp add: map_add_def)

lemma keys_none:
  "\<forall>g \<in> set gs. key g \<noteq> k \<Longrightarrow> map_of (rev (map (\<lambda>g. (key g, c g)) gs)) k = None"
  by (auto simp: map_of_eq_None_iff)

lemma bucket_last:
  assumes "bucket = pre @ f # post" "\<not> bad f"
    and "\<forall>g \<in> set post. \<not> bad g \<longrightarrow> key g \<noteq> key f"
  shows "map_of (rev (map (\<lambda>g. (key g, c g)) (filter (\<lambda>g. \<not> bad g) bucket))) (key f)
     = Some (c f)"
proof -
  from assms(3) have "\<forall>g \<in> set (filter (\<lambda>g. \<not> bad g) post). key g \<noteq> key f"
    by simp
  from keys_none [OF this]
  have "map_of (rev (map (\<lambda>g. (key g, c g)) (filter (\<lambda>g. \<not> bad g) post))) (key f) = None" .
  with assms(1,2) show ?thesis
    by (simp add: map_add_def)
qed

lemma entryAt_songs:
  assumes "songs (vsliceStructure s) = pre @ f # post" "\<not> conversionError s f"
    and "\<forall>g \<in> set post. \<not> conversionError s g \<longrightarrow> name g \<noteq> name f"
  shows "entryAt (vsliceZip cdc s) (''vslice_mod/songs/'' @ name f) = Some (fileContent cdc s f)"
proof -
  have i: "map_of (rev (map (\<lambda>g. (''vslice_mod/images/'' @ name g, fileContent cdc s g))
        (filter (\<lambda>g. \<not> conversionError s g) (images (vsliceStructure s)))))
      (''vslice_mod/songs/'' @ name f) = None"
    by (rule keys_none) simp
  have d: "map_of (rev (map (\<lambda>g. (''vslice_mod/data/'' @ name g, fileContent cdc s g))
        (filter (\<lambda>g. \<not> conversionError s g) (data (vsliceStructure s)))))
      (''vslice_mod/songs/'' @ name f) = None"
    by (rule keys_none) simp
  from assms(3) have "\<forall>g \<in> set post. \<not> conversionError s g \<longrightarrow>
      ''vslice_mod/songs/'' @ name g \<noteq> ''vslice_mod/songs/'' @ name f"
    by simp
  from bucket_last [where key = "\<lambda>g. ''vslice_mod/songs/'' @ name g", OF assms(1,2) this]
  have "map_of (rev (map (\<lambda>g. (''vslice_mod/songs/'' @ name g, fileContent cdc s g))
        (filter (\<lambda>g. \<not> conversionError s g) (songs (vsliceStructure s)))))
      (''vslice_mod/songs/'' @ name f) = Some (fileContent cdc s f)" .
  with i d show ?thesis
    unfolding entryAt_def zfiles_vsliceZip rev_append map_of_append_lookup by simp
qed

lemma entryAt_data:
  assumes "data (vsliceStructure s) = pre @ f # post" "\<not> conversionError s f"
    and "\<forall>g \<in> set post. \<not> conversionError s g \<longrightarrow> name g \<noteq> name f"
  shows "entryAt (vsliceZip cdc s) (''vslice_mod/data/'' @ name f) = Some (fileContent cdc s f)"
proof -
  have i: "map_of (rev (map (\<lambda>g. (''vslice_mod/images/'' @ name g, fileContent cdc s g))
        (filter (\<lambda>g. \<not> conversionError s g) (images (vsliceStructure s)))))
      (''vslice_mod/data/'' @ name f) = None"
    by (rule keys_none) simp
  from assms(3) have "\<forall>g \<in> set post. \<not> conversionError s g \<longrightarrow>
      ''vslice_mod/data/'' @ name g \<noteq> ''vslice_mod/data/'' @ name f"
    by simp
  from bucket_last [where key = "\<lambda>g. ''vslice_mod/data/'' @ name g", OF assms(1,2) this]
  have "map_of (rev (map (\<lambda>g. (''vslice_mod/data/'' @ name g, fileContent cdc s g))
        (filter (\<lambda>g. \<not> conversionError s g) (data (vsliceStructure s)))))
      (''vslice_mod/data/'' @ name f) = Some (fileContent cdc s f)" .
  with i show ?thesis
    unfolding entryAt_def zfiles_vsliceZip rev_append map_of_append_lookup by simp
qed

lemma entryAt_images:
  assumes "images (vsliceStructure s) = pre @ f # post" "\<not> conversionError s f"
    and "\<forall>g \<in> set post. \<not> conversionError s g \<longrightarrow> name g \<noteq> name f"
  shows "entryAt (vsliceZip cdc s) (''vslice_mod/images/'' @ name f) = Some (fileContent cdc s f)"
proof -
  from assms(3) have "\<forall>g \<in> set post. \<not> conversionError s g \<longrightarrow>
      ''vslice_mod/images/'' @ name g \<noteq> ''vslice_mod/images/'' @ name f"
    by simp
  from bucket_last [where key = "\<lambda>g. ''vslice_mod/images/'' @ name g", OF assms(1,2) this]
  have "map_of (rev (map (\<lambda>g. (''vslice_mod/images/'' @ name g, fileContent cdc s g))
        (filter (\<lambda>g. \<not> conversionError s g) (images (vsliceStructure s)))))
      (''vslice_mod/images/'' @ name f) = Some (fileContent cdc s f)" .
  then show ?thesis
    unfolding entryAt_def zfiles_vsliceZip rev_append map_of_append_lookup by simp
qed

section \<open>The example run\<close>

lemma example_intake:
  "filter (\<lambda>f. isValidType f \<and> isValidSize f) example_files =
     [\<lparr>oid = 0, name = ''bad.json'', fsize = 1, content = ''{''\<rparr>,
      \<lparr>oid = 1, name = ''mod.zip'', fsize = 2, content = ''PK''\<rparr>,
      \<lparr>oid = 3, name = ''z.ogg'', fsize = 3, content = ''Ogg''\<rparr>]"
  by (simp add: example_files_def isValidType_def isValidSize_def SUPPORTED_FILES_def
      MAX_FILE_SIZE_def endsWith_def toLowerCase_def toLowerChar_def)

lemma example_run_result:
  "fst (processFiles example_codec example_files constructor) =
     Inr \<lparr>oid = 8, name = ''vslice_mod.zip'', fsize = 5, content = ''zipped''\<rparr>"
  by (simp add: run_defs example_defs)

lemma example_run_files:
  "files (snd (processFiles example_codec example_files constructor)) =
     [\<lparr>oid = 0, name = ''bad.json'', fsize = 1, content = ''{''\<rparr>,
      \<lparr>oid = 3, name = ''z.ogg'', fsize = 3, content = ''Ogg''\<rparr>,
      \<lparr>oid = 4, name = ''songs/a.ogg'', fsize = 3, content = ''Ogg''\<rparr>,
      \<lparr>oid = 5, name = ''data/b.json'', fsize = 4, content = ''good''\<rparr>,
      \<lparr>oid = 6, name = ''images/c.png'', fsize = 3, content = ''PNG''\<rparr>,
      \<lparr>oid = 7, name = ''extra/data/evil.exe'', fsize = 60000000, content = ''MZ''\<rparr>]"
  by (simp add: run_defs example_defs)

lemma example_run_paths:
  "map fst (zfiles (vsliceZip example_codec
      (snd (processFiles example_codec example_files constructor)))) =
     [''vslice_mod/songs/z.ogg'', ''vslice_mod/songs/songs/a.ogg'',
      ''vslice_mod/data/data/b.json'', ''vslice_mod/data/extra/data/evil.exe'',
      ''vslice_mod/images/images/c.png'']"
  by (simp add: run_defs example_defs)

lemma example_run:
  "processFiles example_codec example_files constructor =
     (Inr \<lparr>oid = 8, name = ''vslice_mod.zip'', fsize = 5, content = ''zipped''\<rparr>,
      snd (processFiles example_codec example_files constructor))"
  by (simp add: prod_eq_iff example_run_result)

lemma example_run_songs:
  "songs (vsliceStructure (snd (processFiles example_codec example_files constructor))) =
     [\<lparr>oid = 3, name = ''z.ogg'', fsize = 3, content = ''Ogg''\<rparr>,
      \<lparr>oid = 4, name = ''songs/a.ogg'', fsize = 3, content = ''Ogg''\<rparr>]"
  unfolding run_buckets(1) [OF example_run] example_run_files
  by (simp add: endsWith_def)

lemma example_run_data:
  "data (vsliceStructure (snd (processFiles example_codec example_files constructor))) =
     [\<lparr>oid = 0, name = ''bad.json'', fsize = 1, content = ''{''\<rparr>,
      \<lparr>oid = 5, name = ''data/b.json'', fsize = 4, content = ''good''\<rparr>,
      \<lparr>oid = 7, name = ''extra/data/evil.exe'', fsize = 60000000, content = ''MZ''\<rparr>]"
  unfolding run_buckets(2) [OF example_run] example_run_files
  by (simp add: endsWith_def)

lemma same_name_run:
  "processFiles example_codec same_name_files constructor =
     (Inr \<lparr>oid = 2, name = ''vslice_mod.zip'', fsize = 2, content = ''zipped''\<rparr>,
      \<lparr>files = [\<lparr>oid = 0, name = ''a.ogg'', fsize = 3, content = ''one''\<rparr>,
                \<lparr>oid = 1, name = ''a.ogg'', fsize = 3, content = ''two''\<rparr>],
       vsliceStructure =
         \<lparr>songs = [\<lparr>oid = 0, name = ''a.ogg'', fsize = 3, content = ''one''\<rparr>,
                   \<lparr>oid = 1, name = ''a.ogg'', fsize = 3, content = ''two''\<rparr>],
          data = [], images = []\<rparr>,
       converted = (\<lambda>f. None), conversionError = (\<lambda>f. False),
       progress = [(10, ''Checking files...''), (40, ''Organizing files...''),
                   (60, ''Converting charts...''), (80, ''Creating package...''),
                   (90, ''Finalizing...'')],
       errorShown = []\<rparr>)"
  by (simp add: run_defs example_defs same_name_files_def)

lemma example_tryConvert:
  "tryConvert example_codec \<lparr>oid = 5, name = ''data/b.json'', fsize = 4, content = ''good''\<rparr>
     = Some example_target"
  by (simp add: tryConvert_def example_defs)

section \<open>The output archive\<close>

text \<open>
  In the example run the song \<^verbatim>\<open>z.ogg\<close> survives in the songs bucket, and the archive has
  no entry \<^verbatim>\<open>songs/z.ogg\<close>: every path starts with the folder \<^verbatim>\<open>vslice_mod\<close>.
\<close>

theorem bucket_path_counterexample:
  "fst (processFiles example_codec example_files constructor) =
     Inr \<lparr>oid = 8, name = ''vslice_mod.zip'', fsize = 5, content = ''zipped''\<rparr>
   \<and> \<lparr>oid = 3, name = ''z.ogg'', fsize = 3, content = ''Ogg''\<rparr>
       \<in> set (songs (vsliceStructure (snd (processFiles example_codec example_files constructor))))
   \<and> \<not> conversionError (snd (processFiles example_codec example_files constructor))
         \<lparr>oid = 3, name = ''z.ogg'', fsize = 3, content = ''Ogg''\<rparr>
   \<and> map fst (zfiles (vsliceZip example_codec
        (snd (processFiles example_codec example_files constructor)))) =
       [''vslice_mod/songs/z.ogg'', ''vslice_mod/songs/songs/a.ogg'',
        ''vslice_mod/data/data/b.json'', ''vslice_mod/data/extra/data/evil.exe'',
        ''vslice_mod/images/images/c.png'']
   \<and> ''songs/z.ogg'' \<notin> set (map fst (zfiles (vsliceZip example_codec
        (snd (processFiles example_codec example_files constructor)))))"
proof -
  have "\<not> conversionError (snd (processFiles example_codec example_files constructor))
         \<lparr>oid = 3, name = ''z.ogg'', fsize = 3, content = ''Ogg''\<rparr>"
    using run_not_json [OF example_run, of "\<lparr>oid = 3, name = ''z.ogg'', fsize = 3, content = ''Ogg''\<rparr>"]
    by (simp add: endsWith_def)
  then show ?thesis
    unfolding example_run_paths example_run_songs example_run_result
    by simp
qed

text \<open>
  C2 (as amended): in every run that completes, each surviving file of a bucket is written
  at the path \<^verbatim>\<open>vslice_mod/<bucket-name>/<original-file-name>\<close>, and every entry written is
  such a file at such a path: \<^verbatim>\<open>vslice_mod/\<close> is the one top-level folder of the archive, and
  \<^verbatim>\<open>songs/\<close>, \<^verbatim>\<open>data/\<close> and \<^verbatim>\<open>images/\<close> are the folders in it. The run returns the file
  \<^verbatim>\<open>vslice_mod.zip\<close> that the encoder makes of these entries.
\<close>

theorem archive_paths:
  assumes "processFiles cdc fs constructor = (Inr out, s)"
  shows "(\<forall>f \<in> set (songs (vsliceStructure s)). \<not> conversionError s f \<longrightarrow>
            (''vslice_mod/songs/'' @ name f, fileContent cdc s f) \<in> set (zfiles (vsliceZip cdc s)))
    \<and> (\<forall>f \<in> set (data (vsliceStructure s)). \<not> conversionError s f \<longrightarrow>
            (''vslice_mod/data/'' @ name f, fileContent cdc s f) \<in> set (zfiles (vsliceZip cdc s)))
    \<and> (\<forall>f \<in> set (images (vsliceStructure s)). \<not> conversionError s f \<longrightarrow>
            (''vslice_mod/images/'' @ name f, fileContent cdc s f) \<in> set (zfiles (vsliceZip cdc s)))
    \<and> (\<forall>e \<in> set (zfiles (vsliceZip cdc s)).
          \<exists>f. \<not> conversionError s f \<and> snd e = fileContent cdc s f
            \<and> (f \<in> set (songs (vsliceStructure s)) \<and> fst e = ''vslice_mod/songs/'' @ name f
               \<or> f \<in> set (data (vsliceStructure s)) \<and> fst e = ''vslice_mod/data/'' @ name f
               \<or> f \<in> set (images (vsliceStructure s)) \<and> fst e = ''vslice_mod/images/'' @ name f))
    \<and> generateAsync cdc (zfiles (vsliceZip cdc s)) = Inr (fsize out, content out)
    \<and> name out = ''vslice_mod.zip''"
proof -
  from run_final_state [OF assms] have
    "generateAsync cdc (zfiles (vsliceZip cdc s)) = Inr (fsize out, content out)"
    "name out = ''vslice_mod.zip''"
    by blast+
  moreover have "\<forall>e \<in> set (zfiles (vsliceZip cdc s)).
          \<exists>f. \<not> conversionError s f \<and> snd e = fileContent cdc s f
            \<and> (f \<in> set (songs (vsliceStructure s)) \<and> fst e = ''vslice_mod/songs/'' @ name f
               \<or> f \<in> set (data (vsliceStructure s)) \<and> fst e = ''vslice_mod/data/'' @ name f
               \<or> f \<in> set (images (vsliceStructure s)) \<and> fst e = ''vslice_mod/images/'' @ name f)"
    by (rule entries_from_unflagged)
  moreover have "\<forall>f. \<not> conversionError s f \<longrightarrow>
        (f \<in> set (songs (vsliceStructure s)) \<longrightarrow>
            (''vslice_mod/songs/'' @ name f, fileContent cdc s f) \<in> set (zfiles (vsliceZip cdc s)))
      \<and> (f \<in> set (data (vsliceStructure s)) \<longrightarrow>
            (''vslice_mod/data/'' @ name f, fileContent cdc s f) \<in> set (zfiles (vsliceZip cdc s)))
      \<and> (f \<in> set (images (vsliceStructure s)) \<longrightarrow>
            (''vslice_mod/images/'' @ name f, fileContent cdc s f) \<in> set (zfiles (vsliceZip cdc s)))"
    using surviving_written by blast
  ultimately show ?thesis
    by blast
qed

theorem archive_paths_witness:
  "fst (processFiles example_codec example_files constructor) =
     Inr \<lparr>oid = 8, name = ''vslice_mod.zip'', fsize = 5, content = ''zipped''\<rparr>
   \<and> (''vslice_mod/songs/z.ogg'', Blob \<lparr>oid = 3, name = ''z.ogg'', fsize = 3, content = ''Ogg''\<rparr>)
       \<in> set (zfiles (vsliceZip example_codec
                (snd (processFiles example_codec example_files constructor))))
   \<and> generateAsync example_codec
        (zfiles (vsliceZip example_codec
                  (snd (processFiles example_codec example_files constructor)))) =
       Inr (5, ''zipped'')"
proof -
  let ?s = "snd (processFiles example_codec example_files constructor)"
  let ?z = "\<lparr>oid = 3, name = ''z.ogg'', fsize = 3, content = ''Ogg''\<rparr>"
  note inst = archive_paths [OF example_run]
  have mem: "?z \<in> set (songs (vsliceStructure ?s))"
    by (simp add: example_run_songs)
  have raw: "\<not> conversionError ?s ?z \<and> fileContent example_codec ?s ?z = Blob ?z"
    using run_not_json [OF example_run, of ?z] by (simp add: endsWith_def)
  from inst have "\<forall>f \<in> set (songs (vsliceStructure ?s)). \<not> conversionError ?s f \<longrightarrow>
      (''vslice_mod/songs/'' @ name f, fileContent example_codec ?s f)
        \<in> set (zfiles (vsliceZip example_codec ?s))"
    by (elim conjE)
  from this [rule_format, OF mem] raw
  have w: "(''vslice_mod/songs/z.ogg'', Blob ?z) \<in> set (zfiles (vsliceZip example_codec ?s))"
    by simp
  from inst have "generateAsync example_codec (zfiles (vsliceZip example_codec ?s)) =
       Inr (5, ''zipped'')"
    by simp
  with w example_run_result show ?thesis
    by simp
qed

text \<open>
  Two songs of one name are both written under \<^verbatim>\<open>vslice_mod/songs/a.ogg\<close>; the archive
  holds the second one there, and the bytes of the first one, which survives and has no
  converted chart, are not packaged.
\<close>

theorem same_name_replaced_counterexample:
  "fst (processFiles example_codec same_name_files constructor) =
     Inr \<lparr>oid = 2, name = ''vslice_mod.zip'', fsize = 2, content = ''zipped''\<rparr>
   \<and> songs (vsliceStructure (snd (processFiles example_codec same_name_files constructor))) =
       [\<lparr>oid = 0, name = ''a.ogg'', fsize = 3, content = ''one''\<rparr>,
        \<lparr>oid = 1, name = ''a.ogg'', fsize = 3, content = ''two''\<rparr>]
   \<and> \<not> conversionError (snd (processFiles example_codec same_name_files constructor))
         \<lparr>oid = 0, name = ''a.ogg'', fsize = 3, content = ''one''\<rparr>
   \<and> converted (snd (processFiles example_codec same_name_files constructor))
         \<lparr>oid = 0, name = ''a.ogg'', fsize = 3, content = ''one''\<rparr> = None
   \<and> map fst (zfiles (vsliceZip example_codec
        (snd (processFiles example_codec same_name_files constructor)))) =
       [''vslice_mod/songs/a.ogg'', ''vslice_mod/songs/a.ogg'']
   \<and> entryAt (vsliceZip example_codec
        (snd (processFiles example_codec same_name_files constructor)))
        ''vslice_mod/songs/a.ogg'' =
       Some (Blob \<lparr>oid = 1, name = ''a.ogg'', fsize = 3, content = ''two''\<rparr>)"
  unfolding same_name_run
  by (simp add: vsliceZip_def addFiles_def addFile_def fileContent_def zip_file_def folder_def
      new_JSZip_def entryAt_def)

text \<open>
  C8 (as amended): in every run that completes, a surviving file that no later surviving
  file of the same bucket shares its name with (so every surviving file, when the names in
  a bucket are pairwise different) is what the archive holds at
  \<^verbatim>\<open>vslice_mod/<bucket-name>/<original-file-name>\<close>: the \<^verbatim>\<open>File\<close> object itself (its original
  bytes) when it has no converted chart, the serialized chart when it has one. A file has a
  converted chart exactly when it is a \<^verbatim>\<open>.json\<close> file of the data bucket whose content
  parses to a chart that \<^verbatim>\<open>convertToVSlice\<close> converts, and the chart is that conversion. The
  run returns the file that the encoder makes of the archive.
\<close>

theorem packaged_content:
  assumes run: "processFiles cdc fs constructor = (Inr out, s)"
    and surv: "\<not> conversionError s f"
  shows "(\<forall>pre post. songs (vsliceStructure s) = pre @ f # post
            \<and> (\<forall>g \<in> set post. \<not> conversionError s g \<longrightarrow> name g \<noteq> name f) \<longrightarrow>
          entryAt (vsliceZip cdc s) (''vslice_mod/songs/'' @ name f) =
            Some (case converted s f of None \<Rightarrow> Blob f
                  | Some v \<Rightarrow> Text (JSON_stringify cdc v)))
    \<and> (\<forall>pre post. data (vsliceStructure s) = pre @ f # post
            \<and> (\<forall>g \<in> set post. \<not> conversionError s g \<longrightarrow> name g \<noteq> name f) \<longrightarrow>
          entryAt (vsliceZip cdc s) (''vslice_mod/data/'' @ name f) =
            Some (case converted s f of None \<Rightarrow> Blob f
                  | Some v \<Rightarrow> Text (JSON_stringify cdc v)))
    \<and> (\<forall>pre post. images (vsliceStructure s) = pre @ f # post
            \<and> (\<forall>g \<in> set post. \<not> conversionError s g \<longrightarrow> name g \<noteq> name f) \<longrightarrow>
          entryAt (vsliceZip cdc s) (''vslice_mod/images/'' @ name f) =
            Some (case converted s f of None \<Rightarrow> Blob f
                  | Some v \<Rightarrow> Text (JSON_stringify cdc v)))
    \<and> (\<forall>v. converted s f = Some v \<longleftrightarrow>
          f \<in> set (data (vsliceStructure s)) \<and> endsWith (name f) ''.json''
          \<and> (\<exists>chart. JSON_parse cdc (content f) = Some chart \<and> convertToVSlice chart = Inr v))
    \<and> generateAsync cdc (zfiles (vsliceZip cdc s)) = Inr (fsize out, content out)
    \<and> name out = ''vslice_mod.zip''"
proof -
  from run_final_state [OF run] have
    conv: "converted s f =
            (if f \<in> set (data (vsliceStructure s)) \<and> endsWith (name f) ''.json''
             then tryConvert cdc f else None)"
    and gen: "generateAsync cdc (zfiles (vsliceZip cdc s)) = Inr (fsize out, content out)"
    and nm: "name out = ''vslice_mod.zip''"
    by blast+
  have iff: "\<forall>v. converted s f = Some v \<longleftrightarrow>
          f \<in> set (data (vsliceStructure s)) \<and> endsWith (name f) ''.json''
          \<and> (\<exists>chart. JSON_parse cdc (content f) = Some chart \<and> convertToVSlice chart = Inr v)"
    unfolding conv by (auto simp: tryConvert_Some_iff)
  note fc = fileContent_final [OF run, of f]
  have sg: "\<forall>pre post. songs (vsliceStructure s) = pre @ f # post
            \<and> (\<forall>g \<in> set post. \<not> conversionError s g \<longrightarrow> name g \<noteq> name f) \<longrightarrow>
          entryAt (vsliceZip cdc s) (''vslice_mod/songs/'' @ name f) =
            Some (case converted s f of None \<Rightarrow> Blob f
                  | Some v \<Rightarrow> Text (JSON_stringify cdc v))"
    using entryAt_songs [where s = s and f = f and cdc = cdc, OF _ surv] unfolding fc by blast
  have dt: "\<forall>pre post. data (vsliceStructure s) = pre @ f # post
            \<and> (\<forall>g \<in> set post. \<not> conversionError s g \<longrightarrow> name g \<noteq> name f) \<longrightarrow>
          entryAt (vsliceZip cdc s) (''vslice_mod/data/'' @ name f) =
            Some (case converted s f of None \<Rightarrow> Blob f
                  | Some v \<Rightarrow> Text (JSON_stringify cdc v))"
    using entryAt_data [where s = s and f = f and cdc = cdc, OF _ surv] unfolding fc by blast
  have im: "\<forall>pre post. images (vsliceStructure s) = pre @ f # post
            \<and> (\<forall>g \<in> set post. \<not> conversionError s g \<longrightarrow> name g \<noteq> name f) \<longrightarrow>
          entryAt (vsliceZip cdc s) (''vslice_mod/images/'' @ name f) =
            Some (case converted s f of None \<Rightarrow> Blob f
                  | Some v \<Rightarrow> Text (JSON_stringify cdc v))"
    using entryAt_images [where s = s and f = f and cdc = cdc, OF _ surv] unfolding fc by blast
  show ?thesis
    by (intro conjI sg dt im iff gen nm)
qed

theorem packaged_content_witness:
  "\<not> conversionError (snd (processFiles example_codec example_files constructor))
       \<lparr>oid = 5, name = ''data/b.json'', fsize = 4, content = ''good''\<rparr>
   \<and> converted (snd (processFiles example_codec example_files constructor))
       \<lparr>oid = 5, name = ''data/b.json'', fsize = 4, content = ''good''\<rparr> = Some example_target
   \<and> entryAt (vsliceZip example_codec
        (snd (processFiles example_codec example_files constructor)))
        ''vslice_mod/data/data/b.json'' = Some (Text ''target'')
   \<and> generateAsync example_codec
        (zfiles (vsliceZip example_codec
                  (snd (processFiles example_codec example_files constructor)))) =
       Inr (5, ''zipped'')"
proof -
  let ?s = "snd (processFiles example_codec example_files constructor)"
  let ?bad = "\<lparr>oid = 0, name = ''bad.json'', fsize = 1, content = ''{''\<rparr>"
  let ?b = "\<lparr>oid = 5, name = ''data/b.json'', fsize = 4, content = ''good''\<rparr>"
  let ?evil = "\<lparr>oid = 7, name = ''extra/data/evil.exe'', fsize = 60000000, content = ''MZ''\<rparr>"
  have mem: "?b \<in> set (data (vsliceStructure ?s))"
    by (simp add: example_run_data)
  have dec: "data (vsliceStructure ?s) = [?bad] @ ?b # [?evil]"
    by (simp add: example_run_data)
  have lst: "\<forall>g \<in> set [?evil]. \<not> conversionError ?s g \<longrightarrow> name g \<noteq> name ?b"
    by simp
  have json: "endsWith (name ?b) ''.json''"
    by (simp add: endsWith_def)
  from run_final_state [OF example_run]
  have "conversionError ?s ?b \<longleftrightarrow>
      ?b \<in> set (data (vsliceStructure ?s)) \<and> endsWith (name ?b) ''.json''
      \<and> tryConvert example_codec ?b = None"
    by blast
  with example_tryConvert have surv: "\<not> conversionError ?s ?b"
    by simp
  note inst = packaged_content [OF example_run surv]
  have chart: "\<exists>chart. JSON_parse example_codec (content ?b) = Some chart
      \<and> convertToVSlice chart = Inr example_target"
    using example_tryConvert by (simp add: tryConvert_Some_iff)
  from inst have "\<forall>v. converted ?s ?b = Some v \<longleftrightarrow>
          ?b \<in> set (data (vsliceStructure ?s)) \<and> endsWith (name ?b) ''.json''
          \<and> (\<exists>chart. JSON_parse example_codec (content ?b) = Some chart
               \<and> convertToVSlice chart = Inr v)"
    by (elim conjE)
  with mem json chart have conv: "converted ?s ?b = Some example_target"
    by blast
  from inst have "\<forall>pre post. data (vsliceStructure ?s) = pre @ ?b # post
            \<and> (\<forall>g \<in> set post. \<not> conversionError ?s g \<longrightarrow> name g \<noteq> name ?b) \<longrightarrow>
          entryAt (vsliceZip example_codec ?s) (''vslice_mod/data/'' @ name ?b) =
            Some (case converted ?s ?b of None \<Rightarrow> Blob ?b
                  | Some v \<Rightarrow> Text (JSON_stringify example_codec v))"
    by (elim conjE)
  from this [rule_format, OF conjI, OF dec lst] conv
  have e: "entryAt (vsliceZip example_codec ?s) ''vslice_mod/data/data/b.json''
      = Some (Text ''target'')"
    by (simp add: example_codec_def example_stringify_def)
  from inst have "generateAsync example_codec (zfiles (vsliceZip example_codec ?s)) =
       Inr (5, ''zipped'')"
    by simp
  with surv conv e show ?thesis
    by simp
qed

text \<open>
  C6: when intake and expansion succeed and the encoder does not fail, a \<^verbatim>\<open>.json\<close> file of
  the data bucket whose content does not parse does not stop the run: the run returns an
  archive and the file is flagged. The flagged files are exactly the \<^verbatim>\<open>.json\<close> files of the
  data bucket whose content does not parse or parses to a value that \<^verbatim>\<open>convertToVSlice\<close>
  throws on; a \<^verbatim>\<open>.json\<close> file of the data bucket whose content parses and converts is not
  flagged and is written with its serialized chart. No entry of the archive comes from the
  flagged file, and every file that is not flagged is written in each of its buckets.
\<close>

theorem unparsable_chart_excluded:
  assumes valid: "validateFiles fs (updateUI 10 ''Checking files...'' constructor) = (Inr (), s2)"
    and expand: "(if hasArchive s2 then extractArchive cdc s2 else (Inr (), s2)) = (Inr (), s3)"
    and encode: "\<forall>t. \<exists>b. generateAsync cdc t = Inr b"
    and bad: "f \<in> set (data (vsliceStructure (organizeFiles s3)))"
      "endsWith (name f) ''.json''" "JSON_parse cdc (content f) = None"
  shows "\<exists>out s. processFiles cdc fs constructor = (Inr out, s)
    \<and> conversionError s f
    \<and> (\<forall>g. conversionError s g \<longleftrightarrow>
          g \<in> set (data (vsliceStructure s)) \<and> endsWith (name g) ''.json''
          \<and> (JSON_parse cdc (content g) = None
             \<or> (\<exists>chart e. JSON_parse cdc (content g) = Some chart
                    \<and> convertToVSlice chart = Inl e)))
    \<and> (\<forall>g chart v. g \<in> set (data (vsliceStructure s)) \<and> endsWith (name g) ''.json''
            \<and> JSON_parse cdc (content g) = Some chart \<and> convertToVSlice chart = Inr v \<longrightarrow>
          \<not> conversionError s g
          \<and> (''vslice_mod/data/'' @ name g, Text (JSON_stringify cdc v))
              \<in> set (zfiles (vsliceZip cdc s)))
    \<and> (\<forall>e \<in> set (zfiles (vsliceZip cdc s)).
          \<exists>g. g \<noteq> f \<and> \<not> conversionError s g \<and> snd e = fileContent cdc s g
            \<and> (g \<in> set (songs (vsliceStructure s)) \<and> fst e = ''vslice_mod/songs/'' @ name g
               \<or> g \<in> set (data (vsliceStructure s)) \<and> fst e = ''vslice_mod/data/'' @ name g
               \<or> g \<in> set (images (vsliceStructure s)) \<and> fst e = ''vslice_mod/images/'' @ name g))
    \<and> (\<forall>g. \<not> conversionError s g \<longrightarrow>
        (g \<in> set (songs (vsliceStructure s)) \<longrightarrow>
            (''vslice_mod/songs/'' @ name g, fileContent cdc s g) \<in> set (zfiles (vsliceZip cdc s)))
      \<and> (g \<in> set (data (vsliceStructure s)) \<longrightarrow>
            (''vslice_mod/data/'' @ name g, fileContent cdc s g) \<in> set (zfiles (vsliceZip cdc s)))
      \<and> (g \<in> set (images (vsliceStructure s)) \<longrightarrow>
            (''vslice_mod/images/'' @ name g, fileContent cdc s g) \<in> set (zfiles (vsliceZip cdc s))))
    \<and> generateAsync cdc (zfiles (vsliceZip cdc s)) = Inr (fsize out, content out)"
proof -
  let ?s5 = "convertCharts cdc (organizeFiles s3)"
  from encode obtain b where b: "generateAsync cdc (zfiles (vsliceZip cdc ?s5)) = Inr b"
    by blast
  let ?out = "\<lparr>oid = freshOid (files s3), name = ''vslice_mod.zip'', fsize = fst b,
            content = snd b\<rparr>"
  let ?s = "updateUI 90 ''Finalizing...'' (updateUI 80 ''Creating package...'' ?s5)"
  from processFiles_stages [OF valid expand b]
  have run: "processFiles cdc fs constructor = (Inr ?out, ?s)" .
  from run_final_state [OF run] have
    ce: "\<forall>g. conversionError ?s g \<longleftrightarrow>
            g \<in> set (data (vsliceStructure ?s)) \<and> endsWith (name g) ''.json''
            \<and> tryConvert cdc g = None"
    and gen: "generateAsync cdc (zfiles (vsliceZip cdc ?s)) = Inr (fsize ?out, content ?out)"
    by blast+
  have vs: "vsliceStructure ?s = vsliceStructure (organizeFiles s3)"
    by (simp add: updateUI_fields convertCharts_organizeFiles)
  from bad(3) have "tryConvert cdc f = None"
    by (simp add: tryConvert_def)
  with ce bad(1,2) vs have flagged: "conversionError ?s f"
    by simp
  from surviving_written have written: "\<forall>g. \<not> conversionError ?s g \<longrightarrow>
        (g \<in> set (songs (vsliceStructure ?s)) \<longrightarrow>
            (''vslice_mod/songs/'' @ name g, fileContent cdc ?s g) \<in> set (zfiles (vsliceZip cdc ?s)))
      \<and> (g \<in> set (data (vsliceStructure ?s)) \<longrightarrow>
            (''vslice_mod/data/'' @ name g, fileContent cdc ?s g) \<in> set (zfiles (vsliceZip cdc ?s)))
      \<and> (g \<in> set (images (vsliceStructure ?s)) \<longrightarrow>
            (''vslice_mod/images/'' @ name g, fileContent cdc ?s g) \<in> set (zfiles (vsliceZip cdc ?s)))"
    by blast
  from flagged entries_from_unflagged [of cdc ?s]
  have others: "\<forall>e \<in> set (zfiles (vsliceZip cdc ?s)).
          \<exists>g. g \<noteq> f \<and> \<not> conversionError ?s g \<and> snd e = fileContent cdc ?s g
            \<and> (g \<in> set (songs (vsliceStructure ?s)) \<and> fst e = ''vslice_mod/songs/'' @ name g
               \<or> g \<in> set (data (vsliceStructure ?s)) \<and> fst e = ''vslice_mod/data/'' @ name g
               \<or> g \<in> set (images (vsliceStructure ?s))
                  \<and> fst e = ''vslice_mod/images/'' @ name g)"
    by metis
  from ce have only: "\<forall>g. conversionError ?s g \<longleftrightarrow>
          g \<in> set (data (vsliceStructure ?s)) \<and> endsWith (name g) ''.json''
          \<and> (JSON_parse cdc (content g) = None
             \<or> (\<exists>chart e. JSON_parse cdc (content g) = Some chart
                    \<and> convertToVSlice chart = Inl e))"
    unfolding tryConvert_None_iff by simp
  have good: "\<forall>g chart v. g \<in> set (data (vsliceStructure ?s)) \<and> endsWith (name g) ''.json''
            \<and> JSON_parse cdc (content g) = Some chart \<and> convertToVSlice chart = Inr v \<longrightarrow>
          \<not> conversionError ?s g
          \<and> (''vslice_mod/data/'' @ name g, Text (JSON_stringify cdc v))
              \<in> set (zfiles (vsliceZip cdc ?s))"
    using converted_chart_written [OF run] by blast
  show ?thesis
    by (intro exI [of _ ?out] exI [of _ ?s] conjI run flagged only good others written gen)
qed

theorem unparsable_chart_excluded_witness:
  "\<exists>out s. processFiles example_codec example_files constructor = (Inr out, s)
     \<and> conversionError s \<lparr>oid = 0, name = ''bad.json'', fsize = 1, content = ''{''\<rparr>
     \<and> \<not> conversionError s \<lparr>oid = 3, name = ''z.ogg'', fsize = 3, content = ''Ogg''\<rparr>
     \<and> \<not> conversionError s \<lparr>oid = 5, name = ''data/b.json'', fsize = 4, content = ''good''\<rparr>
     \<and> (''vslice_mod/data/data/b.json'', Text ''target'')
         \<in> set (zfiles (vsliceZip example_codec s))
     \<and> \<not> list_ex (\<lambda>e. snd e = Blob \<lparr>oid = 0, name = ''bad.json'', fsize = 1, content = ''{''\<rparr>)
           (zfiles (vsliceZip example_codec s))
     \<and> JSON_parse example_codec ''{'' = None
     \<and> JSON_parse example_codec ''good'' = Some example_chart
     \<and> convertToVSlice example_chart = Inr example_target"
proof -
  let ?bad = "\<lparr>oid = 0, name = ''bad.json'', fsize = 1, content = ''{''\<rparr>"
  let ?ogg = "\<lparr>oid = 3, name = ''z.ogg'', fsize = 3, content = ''Ogg''\<rparr>"
  let ?b = "\<lparr>oid = 5, name = ''data/b.json'', fsize = 4, content = ''good''\<rparr>"
  let ?s2 = "(updateUI 10 ''Checking files...'' constructor)
      \<lparr>files := filter (\<lambda>f. isValidType f \<and> isValidSize f) example_files\<rparr>"
  let ?s3 = "snd (extractArchive example_codec ?s2)"
  have valid: "validateFiles example_files (updateUI 10 ''Checking files...'' constructor)
      = (Inr (), ?s2)"
    by (simp add: validateFiles_def example_intake) (simp add: example_files_def)
  have arch: "hasArchive ?s2"
    by (simp add: hasArchive_def example_intake endsWith_def)
  have x: "fst (extractArchive example_codec ?s2) = Inr ()"
    unfolding example_intake
    by (simp add: extractArchive_def updateUI_def endsWith_def freshOid_def example_defs)
  have f3: "files ?s3 =
     [\<lparr>oid = 0, name = ''bad.json'', fsize = 1, content = ''{''\<rparr>,
      \<lparr>oid = 3, name = ''z.ogg'', fsize = 3, content = ''Ogg''\<rparr>,
      \<lparr>oid = 4, name = ''songs/a.ogg'', fsize = 3, content = ''Ogg''\<rparr>,
      \<lparr>oid = 5, name = ''data/b.json'', fsize = 4, content = ''good''\<rparr>,
      \<lparr>oid = 6, name = ''images/c.png'', fsize = 3, content = ''PNG''\<rparr>,
      \<lparr>oid = 7, name = ''extra/data/evil.exe'', fsize = 60000000, content = ''MZ''\<rparr>]"
    unfolding example_intake
    by (simp add: extractArchive_def updateUI_def endsWith_def freshOid_def example_defs)
  from arch x have expand:
    "(if hasArchive ?s2 then extractArchive example_codec ?s2 else (Inr (), ?s2)) = (Inr (), ?s3)"
    by (simp add: prod_eq_iff)
  have encode: "\<forall>t. \<exists>b. generateAsync example_codec t = Inr b"
    by (simp add: example_codec_def example_generateAsync_def)
  have bad: "?bad \<in> set (data (vsliceStructure (organizeFiles ?s3)))"
    "endsWith (name ?bad) ''.json''" "JSON_parse example_codec (content ?bad) = None"
    unfolding organizeFiles_buckets f3
    by (simp_all add: endsWith_def example_codec_def example_parse_def)
  have p1: "JSON_parse example_codec ''{'' = None"
    and p2: "JSON_parse example_codec ''good'' = Some example_chart"
    by (simp_all add: example_codec_def example_parse_def)
  have c2: "convertToVSlice example_chart = Inr example_target"
    by (simp add: example_defs)
  from unparsable_chart_excluded [OF valid expand encode bad]
  obtain out s where run: "processFiles example_codec example_files constructor = (Inr out, s)"
    and flagged: "conversionError s ?bad"
    and only: "\<forall>g. conversionError s g \<longleftrightarrow>
          g \<in> set (data (vsliceStructure s)) \<and> endsWith (name g) ''.json''
          \<and> (JSON_parse example_codec (content g) = None
             \<or> (\<exists>chart e. JSON_parse example_codec (content g) = Some chart
                    \<and> convertToVSlice chart = Inl e))"
    and good: "\<forall>g chart v. g \<in> set (data (vsliceStructure s)) \<and> endsWith (name g) ''.json''
            \<and> JSON_parse example_codec (content g) = Some chart
            \<and> convertToVSlice chart = Inr v \<longrightarrow>
          \<not> conversionError s g
          \<and> (''vslice_mod/data/'' @ name g, Text (JSON_stringify example_codec v))
              \<in> set (zfiles (vsliceZip example_codec s))"
    by blast
  from run have s: "s = snd (processFiles example_codec example_files constructor)"
    by simp
  have bmem: "?b \<in> set (data (vsliceStructure s))" "endsWith (name ?b) ''.json''"
    unfolding s by (simp_all add: example_run_data endsWith_def)
  from good [rule_format, of ?b example_chart example_target] bmem p2 c2
  have b: "\<not> conversionError s ?b"
    "(''vslice_mod/data/data/b.json'', Text ''target'')
         \<in> set (zfiles (vsliceZip example_codec s))"
    by (simp_all add: example_codec_def example_stringify_def)
  from flagged_not_packaged [OF flagged]
  have excl: "\<forall>e \<in> set (zfiles (vsliceZip example_codec s)). snd e \<noteq> Blob ?bad" .
  have "\<not> endsWith (name ?ogg) ''.json''"
    by (simp add: endsWith_def)
  with only have ogg: "\<not> conversionError s ?ogg"
    by blast
  from excl have nobad:
    "\<not> list_ex (\<lambda>e. snd e = Blob ?bad) (zfiles (vsliceZip example_codec s))"
    by (simp add: list_ex_iff)
  show ?thesis
    by (intro exI [of _ out] exI [of _ s] conjI run flagged ogg b nobad p1 p2 c2)
qed



end
